theory Spec2Isabelle
  imports Main
begin

section \<open>The DCOLock sale and vesting ledger\<close>

text \<open>
  A shallow embedding of the Solidity contract \<open>DCOLock\<close> (file \<open>src/unnamed/part_004\<close>).
  Every \<open>uint256\<close> is a natural number; Solidity 0.8 arithmetic is checked, so each
  addition, subtraction, multiplication and division of the source is preceded here by the
  test that makes it revert (error \<open>Panic\<close>). An \<open>address\<close> is a natural number, with
  \<open>0\<close> for \<open>address(0)\<close>. \<open>block.timestamp\<close> and \<open>msg.sender\<close> are the arguments
  \<open>now\<close> and \<open>sender\<close> of each operation. The modifier \<open>nonReentrant\<close> is not
  modelled: calls are run one after the other, and the token is a plain table of balances
  that never calls back into the contract.
\<close>

type_synonym address = nat

definition MAX_UINT256 :: nat where
  "MAX_UINT256 = 2 ^ 256 - 1"

subsection \<open>Data\<close>

record LockedTokens =
  totalAmount :: nat
  sevenMonthAmount :: nat
  oneYearAmount :: nat
  sevenMonthClaimed :: nat
  oneYearClaimed :: nat
  lockTimestamp :: nat

datatype error =
    TokenPriceMustBeGreaterThanZero
  | AmountMustBeGreaterThanZero
  | NoTokensRemaining
  | InsufficientBalance
  | NoBalanceToWithdraw
  | InsufficientTokens
  | CannotWithdrawBeforeGlobalRelease
  | DCONotActive
  | InvalidAddress
  | NoDonationsMade
  | NoTokensToWithdraw
  | SevenMonthReleaseNotAvailable
  | OneYearReleaseNotAvailable
  | InvalidTokenPrice
  | InvalidIncrementThreshold
  | InvalidWalletAddress
  | InvalidAmount
  | OverflowDetected
  | UnderflowDetected
  | RequireFailed
  | Unauthorized
  | TokenTransferFailed
  | Panic

text \<open>
  \<open>RequireFailed\<close> is a failed \<open>require\<close> of \<open>initialize\<close>, \<open>Unauthorized\<close> the revert
  of the \<open>onlyOwner\<close> and \<open>onlyRole\<close> modifiers, \<open>TokenTransferFailed\<close> a revert inside
  the token, \<open>Panic\<close> a checked-arithmetic failure (overflow, underflow, division by zero).
  The event \<open>TokensWithdrawn\<close> is overloaded in the source; the two-argument form (owner
  withdrawal) is \<open>OwnerTokensWithdrawn\<close> here.
\<close>

datatype event =
    TokenPriceUpdated nat nat
  | TokensInjected nat nat
  | ReleaserAdded address
  | ReleaserRemoved address
  | TokensReleased address nat nat
  | DCOEndTimeUpdated nat nat
  | OwnerTokensWithdrawn address nat
  | AllTokensWithdrawn address nat
  | DonationMade address nat nat
  | ZCWDonated nat nat
  | PriceThresholdUpdated nat nat
  | TokensLocked address nat nat
  | TokensWithdrawn address nat nat
  | TimePeriodsSet nat nat

text \<open>
  The storage of the contract, together with what the contract reads from its environment:
  its own address \<open>self\<close> (\<open>address(this)\<close>), the balances of the token \<open>zkToken\<close>, the
  owner and the holders of the two roles, and the log of emitted events.
\<close>

record ledger =
  zkToken :: address
  tokenPrice :: nat
  tokenSold :: nat
  DCO_END_TIME :: nat
  SEVEN_MONTHS :: nat
  ONE_YEAR :: nat
  totalDonations :: nat
  totalUsdGathered :: nat
  incrementThreshold :: nat
  threshold :: nat
  btcAddress :: string
  ethAddress :: address
  solAddress :: string
  ZCW :: address
  userLockedTokens :: "address \<Rightarrow> LockedTokens"
  owner :: address
  releasers :: "address set"
  walletSuppliers :: "address set"
  self :: address
  balances :: "address \<Rightarrow> nat"
  events :: "event list"

text \<open>
  An operation returns \<open>Inr\<close> of the new ledger, or \<open>Inl (e, d)\<close> when it reverts with
  error \<open>e\<close>; \<open>d\<close> is the storage as the operation had written it when it reverted. The
  revert discards \<open>d\<close> (see \<open>transact\<close> below); it is kept so that the place of a check
  relative to the writes can be stated.
\<close>

type_synonym 'a result = "(error \<times> ledger) + 'a"

subsection \<open>The token\<close>

text \<open>
  Modelled from the spec: the token-transfer capability \<open>transferIn(from, amount)\<close>,
  \<open>transferOut(to, amount)\<close>, \<open>balanceOf(self)\<close>. The token is an external ERC-20
  contract, not part of the repository; a transfer fails when the paying balance is too small
  and otherwise moves the amount. Approvals are not modelled.
\<close>

definition balanceOf :: "ledger \<Rightarrow> address \<Rightarrow> nat" where
  "balanceOf s a = balances s a"

definition transferOut :: "address \<Rightarrow> nat \<Rightarrow> ledger \<Rightarrow> ledger option" where
  "transferOut to amount s =
     (if balances s (self s) < amount then None
      else let b1 = (balances s)(self s := balances s (self s) - amount);
               b2 = b1(to := b1 to + amount)
           in Some (s\<lparr>balances := b2\<rparr>))"

definition transferIn :: "address \<Rightarrow> nat \<Rightarrow> ledger \<Rightarrow> ledger option" where
  "transferIn from amount s =
     (if balances s from < amount then None
      else let b1 = (balances s)(from := balances s from - amount);
               b2 = b1(self s := b1 (self s) + amount)
           in Some (s\<lparr>balances := b2\<rparr>))"

definition emit :: "event \<Rightarrow> ledger \<Rightarrow> ledger" where
  "emit e s = s\<lparr>events := events s @ [e]\<rparr>"

subsection \<open>Lock-merge: \<open>_lockTokensForUser\<close>\<close>

definition lockTokensForUser :: "address \<Rightarrow> nat \<Rightarrow> nat \<Rightarrow> ledger \<Rightarrow> ledger result" where
  "lockTokensForUser user amount now s =
     (if user = 0 then Inl (InvalidAddress, s)
      else if amount = 0 then Inl (AmountMustBeGreaterThanZero, s)
      else let userLock = userLockedTokens s user in
        if totalAmount userLock > 0 then
          (if totalAmount userLock > MAX_UINT256 - amount then Inl (OverflowDetected, s)
           else let l1 = userLock\<lparr>totalAmount := totalAmount userLock + amount\<rparr>;
                    s1 = s\<lparr>userLockedTokens := (userLockedTokens s)(user := l1)\<rparr>;
                    halfAmount = amount div 2
                in if sevenMonthAmount l1 > MAX_UINT256 - halfAmount then Inl (OverflowDetected, s1)
                   else let l2 = l1\<lparr>sevenMonthAmount := sevenMonthAmount l1 + halfAmount\<rparr>;
                            s2 = s1\<lparr>userLockedTokens := (userLockedTokens s1)(user := l2)\<rparr>;
                            remainingAmount = amount - halfAmount
                        in if oneYearAmount l2 > MAX_UINT256 - remainingAmount then Inl (OverflowDetected, s2)
                           else let l3 = l2\<lparr>oneYearAmount := oneYearAmount l2 + remainingAmount\<rparr>;
                                    s3 = s2\<lparr>userLockedTokens := (userLockedTokens s2)(user := l3)\<rparr>
                                in Inr (emit (TokensLocked user amount now) s3))
        else
          (let halfAmount = amount div 2;
               l1 = userLock\<lparr>totalAmount := amount,
                              sevenMonthAmount := halfAmount,
                              oneYearAmount := amount - halfAmount,
                              lockTimestamp := now\<rparr>;
               s1 = s\<lparr>userLockedTokens := (userLockedTokens s)(user := l1)\<rparr>
           in Inr (emit (TokensLocked user amount now) s1)))"

subsection \<open>Initialisation\<close>

text \<open>
  \<open>fresh this bal\<close> is the zeroed storage of a proxy at address \<open>this\<close>, with the token
  balances \<open>bal\<close>. \<open>initialize\<close> carries the \<open>initializer\<close> modifier, so it runs once, on
  that storage; the state variable initialisers of the source do not apply to a proxy, which
  is why \<open>initialize\<close> writes both thresholds itself. Events of the inherited library
  contracts are not logged.
\<close>

definition fresh :: "address \<Rightarrow> (address \<Rightarrow> nat) \<Rightarrow> ledger" where
  "fresh this bal =
     \<lparr>zkToken = 0, tokenPrice = 0, tokenSold = 0, DCO_END_TIME = 0, SEVEN_MONTHS = 0,
      ONE_YEAR = 0, totalDonations = 0, totalUsdGathered = 0, incrementThreshold = 0,
      threshold = 0, btcAddress = [], ethAddress = 0, solAddress = [], ZCW = 0,
      userLockedTokens = (\<lambda>_. \<lparr>totalAmount = 0, sevenMonthAmount = 0, oneYearAmount = 0,
                                 sevenMonthClaimed = 0, oneYearClaimed = 0, lockTimestamp = 0\<rparr>),
      owner = 0, releasers = {}, walletSuppliers = {}, self = this, balances = bal,
      events = []\<rparr>"

definition days :: nat where
  "days = 86400"

definition initialize ::
  "address \<Rightarrow> nat \<Rightarrow> address \<Rightarrow> address \<Rightarrow> nat \<Rightarrow> ledger \<Rightarrow> ledger result" where
  "initialize initialOwner tokenPrice' zktcAddress zcwAddress now s =
     (if initialOwner = 0 then Inl (RequireFailed, s)
      else if tokenPrice' = 0 then Inl (RequireFailed, s)
      else if zktcAddress = 0 then Inl (RequireFailed, s)
      else if zcwAddress = 0 then Inl (RequireFailed, s)
      else let s1 = s\<lparr>owner := initialOwner\<rparr>;
               s2 = s1\<lparr>tokenPrice := tokenPrice', zkToken := zktcAddress, ZCW := zcwAddress\<rparr>;
               s3 = s2\<lparr>incrementThreshold := 37500, threshold := 137500\<rparr>;
               s4 = s3\<lparr>releasers := insert initialOwner (releasers s3)\<rparr>;
               s5 = s4\<lparr>walletSuppliers := insert initialOwner (walletSuppliers s4)\<rparr>
           in if now + 101 * days > MAX_UINT256 then Inl (Panic, s5)
              else let s6 = s5\<lparr>DCO_END_TIME := now + 101 * days\<rparr>
                   in if now + 187 * days > MAX_UINT256 then Inl (Panic, s6)
                      else let s7 = s6\<lparr>SEVEN_MONTHS := now + 187 * days\<rparr>
                           in if now + 342 * days > MAX_UINT256 then Inl (Panic, s7)
                              else Inr (s7\<lparr>ONE_YEAR := now + 342 * days\<rparr>))"

subsection \<open>Administrative setters\<close>

definition setWalletSupplier :: "address \<Rightarrow> address \<Rightarrow> ledger \<Rightarrow> ledger result" where
  "setWalletSupplier sender walletSupplier s =
     (if sender \<noteq> owner s then Inl (Unauthorized, s)
      else if walletSupplier = 0 then Inl (InvalidAddress, s)
      else Inr (s\<lparr>walletSuppliers := insert walletSupplier (walletSuppliers s)\<rparr>))"

definition setWalletAddresses ::
  "address \<Rightarrow> string \<Rightarrow> address \<Rightarrow> string \<Rightarrow> ledger \<Rightarrow> ledger result" where
  "setWalletAddresses sender btcAddress' ethAddress' solAddress' s =
     (if sender \<notin> walletSuppliers s then Inl (Unauthorized, s)
      else if ethAddress' = 0 then Inl (InvalidWalletAddress, s)
      else if length btcAddress' = 0 then Inl (InvalidWalletAddress, s)
      else if length solAddress' = 0 then Inl (InvalidWalletAddress, s)
      else Inr (s\<lparr>btcAddress := btcAddress', ethAddress := ethAddress',
                   solAddress := solAddress'\<rparr>))"

definition setTokenPrice :: "address \<Rightarrow> nat \<Rightarrow> ledger \<Rightarrow> ledger result" where
  "setTokenPrice sender newTokenPrice s =
     (if sender \<notin> releasers s then Inl (Unauthorized, s)
      else if newTokenPrice = 0 then Inl (TokenPriceMustBeGreaterThanZero, s)
      else let oldPrice = tokenPrice s;
               s1 = s\<lparr>tokenPrice := newTokenPrice\<rparr>
           in Inr (emit (TokenPriceUpdated oldPrice newTokenPrice) s1))"

definition setDCOEndTime :: "address \<Rightarrow> nat \<Rightarrow> ledger \<Rightarrow> ledger result" where
  "setDCOEndTime sender newDCOEndTime s =
     (if sender \<noteq> owner s then Inl (Unauthorized, s)
      else let s1 = s\<lparr>DCO_END_TIME := newDCOEndTime\<rparr>
           in Inr (emit (DCOEndTimeUpdated (DCO_END_TIME s1) newDCOEndTime) s1))"

definition injectSupply :: "address \<Rightarrow> nat \<Rightarrow> ledger \<Rightarrow> ledger result" where
  "injectSupply sender amount s =
     (if sender \<noteq> owner s then Inl (Unauthorized, s)
      else if amount = 0 then Inl (AmountMustBeGreaterThanZero, s)
      else case transferIn sender amount s of
             None \<Rightarrow> Inl (TokenTransferFailed, s)
           | Some s1 \<Rightarrow> Inr (emit (TokensInjected amount (balanceOf s1 (self s1))) s1))"

definition addReleaser :: "address \<Rightarrow> address \<Rightarrow> ledger \<Rightarrow> ledger result" where
  "addReleaser sender releaser s =
     (if sender \<noteq> owner s then Inl (Unauthorized, s)
      else Inr (emit (ReleaserAdded releaser) (s\<lparr>releasers := insert releaser (releasers s)\<rparr>)))"

definition removeReleaser :: "address \<Rightarrow> address \<Rightarrow> ledger \<Rightarrow> ledger result" where
  "removeReleaser sender releaser s =
     (if sender \<noteq> owner s then Inl (Unauthorized, s)
      else Inr (emit (ReleaserRemoved releaser) (s\<lparr>releasers := releasers s - {releaser}\<rparr>)))"

definition updatePriceThresholds :: "address \<Rightarrow> nat \<Rightarrow> ledger \<Rightarrow> ledger result" where
  "updatePriceThresholds sender incrementThreshold' s =
     (if sender \<notin> releasers s then Inl (Unauthorized, s)
      else if incrementThreshold' = 0 then Inl (InvalidIncrementThreshold, s)
      else Inr (s\<lparr>incrementThreshold := incrementThreshold'\<rparr>))"

definition updateZCW :: "address \<Rightarrow> address \<Rightarrow> ledger \<Rightarrow> ledger result" where
  "updateZCW sender newZCW s =
     (if sender \<noteq> owner s then Inl (Unauthorized, s)
      else if newZCW = 0 then Inl (InvalidAddress, s)
      else Inr (s\<lparr>ZCW := newZCW\<rparr>))"

definition updateThreshold :: "address \<Rightarrow> nat \<Rightarrow> ledger \<Rightarrow> ledger result" where
  "updateThreshold sender threshold' s =
     (if sender \<notin> releasers s then Inl (Unauthorized, s)
      else Inr (s\<lparr>threshold := threshold'\<rparr>))"

definition updateUsdtGathered :: "address \<Rightarrow> nat \<Rightarrow> ledger \<Rightarrow> ledger result" where
  "updateUsdtGathered sender newUsdtGathered s =
     (if sender \<notin> releasers s then Inl (Unauthorized, s)
      else Inr (s\<lparr>totalUsdGathered := newUsdtGathered\<rparr>))"

definition setTimePeriods :: "address \<Rightarrow> nat \<Rightarrow> nat \<Rightarrow> ledger \<Rightarrow> ledger result" where
  "setTimePeriods sender sevenMonthsTime' oneYearTime' s =
     (if sender \<notin> releasers s then Inl (Unauthorized, s)
      else let s1 = s\<lparr>SEVEN_MONTHS := sevenMonthsTime', ONE_YEAR := oneYearTime'\<rparr>
           in Inr (emit (TimePeriodsSet sevenMonthsTime' oneYearTime') s1))"

subsection \<open>Views on the supply\<close>

definition getTotalLockedTokens :: "ledger \<Rightarrow> nat" where
  "getTotalLockedTokens s = tokenSold s"

definition getAvailableForWithdrawal :: "ledger \<Rightarrow> error + nat" where
  "getAvailableForWithdrawal s =
     (let totalLocked = getTotalLockedTokens s in
      if balanceOf s (self s) < totalDonations s then Inl Panic
      else if balanceOf s (self s) - totalDonations s < totalLocked then Inl Panic
      else Inr (balanceOf s (self s) - totalDonations s - totalLocked))"

definition getQuote :: "nat \<Rightarrow> nat \<Rightarrow> ledger \<Rightarrow> error + (nat \<times> nat)" where
  "getQuote usdtAmount donationAmount s =
     (if usdtAmount = 0 \<and> donationAmount = 0 then Inr (0, 0)
      else if tokenPrice s = 0 then Inl InvalidTokenPrice
      else if usdtAmount * 10 ^ 18 > MAX_UINT256 then Inl Panic
      else if donationAmount * 10 ^ 18 > MAX_UINT256 then Inl Panic
      else let tokensToReceive = (usdtAmount * 10 ^ 18) div tokenPrice s;
               donatedTokens = (donationAmount * 10 ^ 18) div tokenPrice s
           in if usdtAmount = 0 then Inr (0, donatedTokens)
              else if balanceOf s (self s) < totalDonations s then Inl Panic
              else let availableTokens = balanceOf s (self s) - totalDonations s
                   in if availableTokens = 0 then Inr (0, donatedTokens)
                      else if tokensToReceive + donatedTokens > MAX_UINT256 then Inl Panic
                      else if tokensToReceive + donatedTokens > availableTokens then
                             (if availableTokens < donatedTokens then Inl Panic
                              else Inr (availableTokens - donatedTokens, donatedTokens))
                      else Inr (tokensToReceive, donatedTokens))"

subsection \<open>Allocation: \<open>releaseZKTC\<close>\<close>

text \<open>
  The three checkpoint blocks inside the repricing loop have one shape: when the price has
  just reached \<open>price\<close>, the threshold step taken with the old increment is undone, the
  increment becomes \<open>newIncrement\<close>, and the step is taken again.
\<close>

definition reprice_checkpoint :: "nat \<Rightarrow> nat \<Rightarrow> ledger \<Rightarrow> ledger result" where
  "reprice_checkpoint price newIncrement s =
     (if tokenPrice s = price then
        (if threshold s < incrementThreshold s then Inl (Panic, s)
         else let s1 = s\<lparr>threshold := threshold s - incrementThreshold s\<rparr>;
                  s2 = s1\<lparr>incrementThreshold := newIncrement\<rparr>
              in if threshold s2 + incrementThreshold s2 > MAX_UINT256 then Inl (Panic, s2)
                 else let s3 = s2\<lparr>threshold := threshold s2 + incrementThreshold s2\<rparr>
                      in Inr (emit (PriceThresholdUpdated (threshold s3) (tokenPrice s3)) s3))
      else Inr s)"

text \<open>One pass through the body of the \<open>while\<close> loop.\<close>

definition reprice_step :: "ledger \<Rightarrow> ledger result" where
  "reprice_step s =
     (if tokenPrice s + 1000 > MAX_UINT256 then Inl (Panic, s)
      else let s1 = s\<lparr>tokenPrice := tokenPrice s + 1000\<rparr>
           in if threshold s1 + incrementThreshold s1 > MAX_UINT256 then Inl (Panic, s1)
              else let s2 = s1\<lparr>threshold := threshold s1 + incrementThreshold s1\<rparr>;
                       s3 = emit (PriceThresholdUpdated (threshold s2) (tokenPrice s2)) s2
                   in case reprice_checkpoint 7000 325000 s3 of
                        Inl x \<Rightarrow> Inl x
                      | Inr s4 \<Rightarrow>
                          (case reprice_checkpoint 8000 350000 s4 of
                             Inl x \<Rightarrow> Inl x
                           | Inr s5 \<Rightarrow> reprice_checkpoint 11000 400000 s5))"

text \<open>
  The loop \<open>while ((totalUsdGathered / 1000000) >= threshold)\<close>. Nothing in its text bounds
  the number of passes, so it is a partial function: \<open>None\<close> is a loop that never ends.
\<close>

partial_function (option) repricing :: "ledger \<Rightarrow> ledger result option" where
  "repricing s =
     (if totalUsdGathered s div 1000000 \<ge> threshold s then
        (case reprice_step s of
           Inl x \<Rightarrow> Some (Inl x)
         | Inr s' \<Rightarrow> repricing s')
      else Some (Inr s))"

text \<open>The statements of \<open>releaseZKTC\<close> before the loop; they yield the two token amounts.\<close>

definition releaseZKTC_accounting ::
  "address \<Rightarrow> nat \<Rightarrow> nat \<Rightarrow> address \<Rightarrow> nat \<Rightarrow> ledger \<Rightarrow> (nat \<times> nat \<times> ledger) result" where
  "releaseZKTC_accounting sender now amount buyer donationAmount s =
     (if sender \<notin> releasers s then Inl (Unauthorized, s)
      else if now > DCO_END_TIME s then Inl (DCONotActive, s)
      else if amount = 0 \<and> donationAmount = 0 then Inl (AmountMustBeGreaterThanZero, s)
      else if buyer = 0 then Inl (InvalidAddress, s)
      else if amount * 10 ^ 18 > MAX_UINT256 then Inl (Panic, s)
      else if tokenPrice s = 0 then Inl (Panic, s)
      else if donationAmount * 10 ^ 18 > MAX_UINT256 then Inl (Panic, s)
      else let tokensToBuy = (amount * 10 ^ 18) div tokenPrice s;
               donation = (donationAmount * 10 ^ 18) div tokenPrice s
           in if balanceOf s (self s) = 0 then Inl (NoTokensRemaining, s)
              else case getAvailableForWithdrawal s of
                     Inl e \<Rightarrow> Inl (e, s)
                   | Inr available \<Rightarrow>
                       if tokensToBuy + donation > MAX_UINT256 then Inl (Panic, s)
                       else if available < tokensToBuy + donation then Inl (InsufficientTokens, s)
                       else if tokenSold s + (tokensToBuy + donation) > MAX_UINT256 then Inl (Panic, s)
                       else let s1 = s\<lparr>tokenSold := tokenSold s + (tokensToBuy + donation)\<rparr>
                            in if amount + donationAmount > MAX_UINT256 then Inl (Panic, s1)
                               else if totalUsdGathered s1 + (amount + donationAmount) > MAX_UINT256
                                    then Inl (Panic, s1)
                               else Inr (tokensToBuy, donation,
                                         s1\<lparr>totalUsdGathered :=
                                               totalUsdGathered s1 + (amount + donationAmount)\<rparr>))"

text \<open>The statements of \<open>releaseZKTC\<close> after the loop: the lock, then the donation.\<close>

definition releaseZKTC_settle :: "nat \<Rightarrow> address \<Rightarrow> nat \<Rightarrow> nat \<Rightarrow> ledger \<Rightarrow> ledger result" where
  "releaseZKTC_settle now buyer tokensToBuy donation s =
     (case (if tokensToBuy > 0 then
              (case lockTokensForUser buyer tokensToBuy now s of
                 Inl x \<Rightarrow> Inl x
               | Inr s1 \<Rightarrow> Inr (emit (TokensReleased buyer tokensToBuy now) s1))
            else Inr s) of
        Inl x \<Rightarrow> Inl x
      | Inr s2 \<Rightarrow>
          if donation > 0 then
            (if totalDonations s2 + donation > MAX_UINT256 then Inl (Panic, s2)
             else Inr (emit (DonationMade buyer donation now)
                         (s2\<lparr>totalDonations := totalDonations s2 + donation\<rparr>)))
          else Inr s2)"

definition releaseZKTC ::
  "address \<Rightarrow> nat \<Rightarrow> nat \<Rightarrow> address \<Rightarrow> nat \<Rightarrow> ledger \<Rightarrow> ledger result option" where
  "releaseZKTC sender now amount buyer donationAmount s =
     (case releaseZKTC_accounting sender now amount buyer donationAmount s of
        Inl x \<Rightarrow> Some (Inl x)
      | Inr (tokensToBuy, donation, s2) \<Rightarrow>
          (case repricing s2 of
             None \<Rightarrow> None
           | Some (Inl x) \<Rightarrow> Some (Inl x)
           | Some (Inr s3) \<Rightarrow> Some (releaseZKTC_settle now buyer tokensToBuy donation s3)))"

subsection \<open>Donation flush and administrative re-allocation\<close>

definition DonateToZCW :: "address \<Rightarrow> nat \<Rightarrow> ledger \<Rightarrow> ledger result" where
  "DonateToZCW sender now s =
     (if sender \<notin> releasers s then Inl (Unauthorized, s)
      else if totalDonations s = 0 then Inl (NoDonationsMade, s)
      else case transferOut (ZCW s) (totalDonations s) s of
             None \<Rightarrow> Inl (TokenTransferFailed, s)
           | Some s1 \<Rightarrow>
               let s2 = s1\<lparr>totalDonations := 0\<rparr>
               in Inr (emit (ZCWDonated (totalDonations s2) now) s2))"

definition UpdateAllocations :: "address \<Rightarrow> nat \<Rightarrow> address \<Rightarrow> nat \<Rightarrow> ledger \<Rightarrow> ledger result" where
  "UpdateAllocations sender now user amount s =
     (if sender \<notin> releasers s then Inl (Unauthorized, s)
      else let s1 = s\<lparr>userLockedTokens :=
                        (userLockedTokens s)(user := (userLockedTokens s user)\<lparr>totalAmount := 0\<rparr>)\<rparr>
           in if amount * 10 ^ 18 > MAX_UINT256 then Inl (Panic, s1)
              else lockTokensForUser user (amount * 10 ^ 18) now s1)"

subsection \<open>User withdrawal: \<open>withdraw\<close>\<close>

text \<open>
  The two release blocks of \<open>withdraw\<close>; \<open>w\<close> is the running \<open>totalWithdrawable\<close>. The
  subtraction that computes the available amount is checked, so it reverts before the
  \<open>UnderflowDetected\<close> test that follows it can.
\<close>

definition withdraw_sevenMonth :: "address \<Rightarrow> nat \<Rightarrow> nat \<Rightarrow> ledger \<Rightarrow> (nat \<times> ledger) result" where
  "withdraw_sevenMonth user now w s =
     (let userLock = userLockedTokens s user in
      if now \<ge> SEVEN_MONTHS s then
        (if sevenMonthAmount userLock < sevenMonthClaimed userLock then Inl (Panic, s)
         else let sevenMonthAvailable = sevenMonthAmount userLock - sevenMonthClaimed userLock
              in if sevenMonthAvailable > 0 then
                   (if sevenMonthClaimed userLock > sevenMonthAmount userLock
                    then Inl (UnderflowDetected, s)
                    else if w + sevenMonthAvailable > MAX_UINT256 then Inl (Panic, s)
                    else Inr (w + sevenMonthAvailable,
                              s\<lparr>userLockedTokens := (userLockedTokens s)
                                   (user := userLock\<lparr>sevenMonthClaimed := sevenMonthAmount userLock\<rparr>)\<rparr>))
                 else Inr (w, s))
      else Inr (w, s))"

definition withdraw_oneYear :: "address \<Rightarrow> nat \<Rightarrow> nat \<Rightarrow> ledger \<Rightarrow> (nat \<times> ledger) result" where
  "withdraw_oneYear user now w s =
     (let userLock = userLockedTokens s user in
      if now \<ge> ONE_YEAR s then
        (if oneYearAmount userLock < oneYearClaimed userLock then Inl (Panic, s)
         else let oneYearAvailable = oneYearAmount userLock - oneYearClaimed userLock
              in if oneYearAvailable > 0 then
                   (if oneYearClaimed userLock > oneYearAmount userLock
                    then Inl (UnderflowDetected, s)
                    else if w + oneYearAvailable > MAX_UINT256 then Inl (Panic, s)
                    else Inr (w + oneYearAvailable,
                              s\<lparr>userLockedTokens := (userLockedTokens s)
                                   (user := userLock\<lparr>oneYearClaimed := oneYearAmount userLock\<rparr>)\<rparr>))
                 else Inr (w, s))
      else Inr (w, s))"

text \<open>
  After the two blocks, \<open>withdraw\<close> reverts on a zero total only while the current time is
  before one of the two marks; in every other case it goes on to the balance check, the
  transfer and the event.
\<close>

definition withdraw :: "address \<Rightarrow> nat \<Rightarrow> ledger \<Rightarrow> ledger result" where
  "withdraw sender now s =
     (let user = sender in
      if totalAmount (userLockedTokens s user) = 0 then Inl (NoTokensToWithdraw, s)
      else case withdraw_sevenMonth user now 0 s of
             Inl x \<Rightarrow> Inl x
           | Inr (w1, s1) \<Rightarrow>
               (case withdraw_oneYear user now w1 s1 of
                  Inl x \<Rightarrow> Inl x
                | Inr (totalWithdrawable, s2) \<Rightarrow>
                    if totalWithdrawable = 0 \<and> now < SEVEN_MONTHS s2
                    then Inl (SevenMonthReleaseNotAvailable, s2)
                    else if totalWithdrawable = 0 \<and> now < ONE_YEAR s2
                    then Inl (OneYearReleaseNotAvailable, s2)
                    else if totalWithdrawable > balanceOf s2 (self s2)
                    then Inl (InsufficientBalance, s2)
                    else (case transferOut user totalWithdrawable s2 of
                            None \<Rightarrow> Inl (TokenTransferFailed, s2)
                          | Some s3 \<Rightarrow>
                              if lockTimestamp (userLockedTokens s3 user) + ONE_YEAR s3 > MAX_UINT256
                              then Inl (Panic, s3)
                              else Inr (emit (TokensWithdrawn user totalWithdrawable
                                          (if now \<ge> lockTimestamp (userLockedTokens s3 user) + ONE_YEAR s3
                                           then 2 else 1)) s3))))"

definition getWithdrawableAmount :: "address \<Rightarrow> nat \<Rightarrow> ledger \<Rightarrow> error + nat" where
  "getWithdrawableAmount user now s =
     (if user = 0 then Inl InvalidAddress
      else let userLock = userLockedTokens s user in
        if totalAmount userLock = 0 then Inr 0
        else if lockTimestamp userLock + SEVEN_MONTHS s > MAX_UINT256 then Inl Panic
        else case (if now \<ge> lockTimestamp userLock + SEVEN_MONTHS s then
                     (if sevenMonthClaimed userLock > sevenMonthAmount userLock
                      then Inl UnderflowDetected
                      else Inr (sevenMonthAmount userLock - sevenMonthClaimed userLock))
                   else Inr 0) of
               Inl e \<Rightarrow> Inl e
             | Inr w1 \<Rightarrow>
                 if lockTimestamp userLock + ONE_YEAR s > MAX_UINT256 then Inl Panic
                 else if now \<ge> lockTimestamp userLock + ONE_YEAR s then
                   (if oneYearClaimed userLock > oneYearAmount userLock then Inl UnderflowDetected
                    else if w1 + (oneYearAmount userLock - oneYearClaimed userLock) > MAX_UINT256
                    then Inl Panic
                    else Inr (w1 + (oneYearAmount userLock - oneYearClaimed userLock)))
                 else Inr w1)"

subsection \<open>Owner withdrawal\<close>

definition withdrawParticularZKTC :: "address \<Rightarrow> nat \<Rightarrow> nat \<Rightarrow> ledger \<Rightarrow> ledger result" where
  "withdrawParticularZKTC sender now amount s =
     (if sender \<noteq> owner s then Inl (Unauthorized, s)
      else if now < DCO_END_TIME s then Inl (CannotWithdrawBeforeGlobalRelease, s)
      else if amount = 0 then Inl (AmountMustBeGreaterThanZero, s)
      else if amount > MAX_UINT256 div 2 then Inl (InvalidAmount, s)
      else case getAvailableForWithdrawal s of
             Inl e \<Rightarrow> Inl (e, s)
           | Inr availableBalance \<Rightarrow>
               if amount > availableBalance then Inl (InsufficientBalance, s)
               else if amount > balanceOf s (self s) then Inl (InsufficientBalance, s)
               else (case transferOut sender amount s of
                       None \<Rightarrow> Inl (TokenTransferFailed, s)
                     | Some s1 \<Rightarrow> Inr (emit (OwnerTokensWithdrawn sender amount) s1)))"

definition withdrawAllZKTC :: "address \<Rightarrow> nat \<Rightarrow> ledger \<Rightarrow> ledger result" where
  "withdrawAllZKTC sender now s =
     (if sender \<noteq> owner s then Inl (Unauthorized, s)
      else if now < DCO_END_TIME s then Inl (CannotWithdrawBeforeGlobalRelease, s)
      else case getAvailableForWithdrawal s of
             Inl e \<Rightarrow> Inl (e, s)
           | Inr availableBalance \<Rightarrow>
               if availableBalance = 0 then Inl (NoBalanceToWithdraw, s)
               else if availableBalance > balanceOf s (self s) then Inl (InsufficientBalance, s)
               else (case transferOut sender availableBalance s of
                       None \<Rightarrow> Inl (TokenTransferFailed, s)
                     | Some s1 \<Rightarrow> Inr (emit (AllTokensWithdrawn sender availableBalance) s1)))"

subsection \<open>The interface as a state machine\<close>

text \<open>
  One constructor for each state-changing entry point that the contract itself declares
  (the entry points inherited from the library contracts are not part of the source).
\<close>

datatype call =
    Call_setWalletSupplier address
  | Call_setWalletAddresses string address string
  | Call_setTokenPrice nat
  | Call_setDCOEndTime nat
  | Call_injectSupply nat
  | Call_addReleaser address
  | Call_removeReleaser address
  | Call_releaseZKTC nat address nat
  | Call_updatePriceThresholds nat
  | Call_DonateToZCW
  | Call_UpdateAllocations address nat
  | Call_updateZCW address
  | Call_updateThreshold nat
  | Call_updateUsdtGathered nat
  | Call_withdraw
  | Call_withdrawParticularZKTC nat
  | Call_withdrawAllZKTC
  | Call_setTimePeriods nat nat

fun exec :: "call \<Rightarrow> address \<Rightarrow> nat \<Rightarrow> ledger \<Rightarrow> ledger result option" where
  "exec (Call_setWalletSupplier a) sender now s = Some (setWalletSupplier sender a s)"
| "exec (Call_setWalletAddresses b e l) sender now s = Some (setWalletAddresses sender b e l s)"
| "exec (Call_setTokenPrice p) sender now s = Some (setTokenPrice sender p s)"
| "exec (Call_setDCOEndTime t) sender now s = Some (setDCOEndTime sender t s)"
| "exec (Call_injectSupply n) sender now s = Some (injectSupply sender n s)"
| "exec (Call_addReleaser a) sender now s = Some (addReleaser sender a s)"
| "exec (Call_removeReleaser a) sender now s = Some (removeReleaser sender a s)"
| "exec (Call_releaseZKTC n b d) sender now s = releaseZKTC sender now n b d s"
| "exec (Call_updatePriceThresholds n) sender now s = Some (updatePriceThresholds sender n s)"
| "exec Call_DonateToZCW sender now s = Some (DonateToZCW sender now s)"
| "exec (Call_UpdateAllocations u n) sender now s = Some (UpdateAllocations sender now u n s)"
| "exec (Call_updateZCW a) sender now s = Some (updateZCW sender a s)"
| "exec (Call_updateThreshold n) sender now s = Some (updateThreshold sender n s)"
| "exec (Call_updateUsdtGathered n) sender now s = Some (updateUsdtGathered sender n s)"
| "exec Call_withdraw sender now s = Some (withdraw sender now s)"
| "exec (Call_withdrawParticularZKTC n) sender now s = Some (withdrawParticularZKTC sender now n s)"
| "exec Call_withdrawAllZKTC sender now s = Some (withdrawAllZKTC sender now s)"
| "exec (Call_setTimePeriods a b) sender now s = Some (setTimePeriods sender a b s)"

text \<open>
  A transaction: when the call reverts, every write it made is discarded and the ledger is
  the one before the call.
\<close>

datatype outcome = Success | Reverted error

definition transact :: "call \<Rightarrow> address \<Rightarrow> nat \<Rightarrow> ledger \<Rightarrow> (outcome \<times> ledger) option" where
  "transact c sender now s =
     (case exec c sender now s of
        None \<Rightarrow> None
      | Some (Inl (e, d)) \<Rightarrow> Some (Reverted e, s)
      | Some (Inr s') \<Rightarrow> Some (Success, s'))"

text \<open>A sequence of transactions, each with its sender and its block time.\<close>

fun run :: "(call \<times> address \<times> nat) list \<Rightarrow> ledger \<Rightarrow> (outcome list \<times> ledger) option" where
  "run [] s = Some ([], s)"
| "run ((c, sender, now) # cs) s =
     (case transact c sender now s of
        None \<Rightarrow> None
      | Some (out, s1) \<Rightarrow>
          (case run cs s1 of
             None \<Rightarrow> None
           | Some (outs, s2) \<Rightarrow> Some (out # outs, s2)))"

text \<open>
  The reachable ledgers: those that \<open>initialize\<close> produces on a fresh proxy, closed under
  successful transactions and under token movements of other parties that do not lower
  the contract's own balance.
\<close>

inductive reachable :: "ledger \<Rightarrow> bool" where
  reach_init:
    "initialize initialOwner price zktc zcw now (fresh this bal) = Inr s \<Longrightarrow> reachable s"
| reach_call:
    "reachable s \<Longrightarrow> transact c sender now s = Some (Success, s') \<Longrightarrow> reachable s'"
| reach_token:
    "reachable s \<Longrightarrow> balances s (self s) \<le> bal (self s) \<Longrightarrow> reachable (s\<lparr>balances := bal\<rparr>)"

subsection \<open>A concrete deployment\<close>

text \<open>
  The ledger that \<open>initialize\<close> yields at time 0 for the owner at address 1, a price of
  \<open>10 ^ 18\<close> (one reference unit per token unit, so that a reference amount and its token
  amount are the same number), the token at address 7 and the charity wallet at address 9;
  the contract is at address 100, and the owner holds \<open>10 ^ 20\<close> token units.
\<close>

definition genesis_balances :: "address \<Rightarrow> nat" where
  "genesis_balances = (\<lambda>a. if a = 1 then 10 ^ 20 else 0)"

definition genesis :: ledger where
  "genesis =
     \<lparr>zkToken = 7, tokenPrice = 10 ^ 18, tokenSold = 0, DCO_END_TIME = 8726400,
      SEVEN_MONTHS = 16156800, ONE_YEAR = 29548800, totalDonations = 0, totalUsdGathered = 0,
      incrementThreshold = 37500, threshold = 137500, btcAddress = [], ethAddress = 0,
      solAddress = [], ZCW = 9,
      userLockedTokens = (\<lambda>_. \<lparr>totalAmount = 0, sevenMonthAmount = 0, oneYearAmount = 0,
                                 sevenMonthClaimed = 0, oneYearClaimed = 0, lockTimestamp = 0\<rparr>),
      owner = 1, releasers = {1}, walletSuppliers = {1}, self = 100,
      balances = genesis_balances, events = []\<rparr>"

text \<open>Two amounts that differ by at most one unit.\<close>

definition within_one :: "nat \<Rightarrow> nat \<Rightarrow> bool" where
  "within_one x y = (x \<le> y + 1 \<and> y \<le> x + 1)"

text \<open>
  The ledger and the outcomes after a sequence of transactions; the concrete ledgers below
  are named by the transactions that lead to them from \<open>genesis\<close>.
\<close>

definition ledger_after :: "(call \<times> address \<times> nat) list \<Rightarrow> ledger \<Rightarrow> ledger" where
  "ledger_after cs s = (case run cs s of Some (outs, s') \<Rightarrow> s' | None \<Rightarrow> s)"

definition outcomes_of :: "(call \<times> address \<times> nat) list \<Rightarrow> ledger \<Rightarrow> outcome list" where
  "outcomes_of cs s = (case run cs s of Some (outs, s') \<Rightarrow> outs | None \<Rightarrow> [])"

definition funded :: ledger where
  "funded = ledger_after [(Call_injectSupply (10 ^ 12), 1, 0)] genesis"

definition reallocated :: ledger where
  "reallocated = ledger_after [(Call_UpdateAllocations 2 1, 1, 1)] genesis"

section \<open>Properties\<close>

subsection \<open>The concrete deployment is reachable\<close>

lemma genesis_initialize:
  "initialize 1 (10 ^ 18) 7 9 0 (fresh 100 genesis_balances) = Inr genesis"
  by (simp add: initialize_def fresh_def genesis_def days_def MAX_UINT256_def)

lemma genesis_reachable: "reachable genesis"
  by (rule reach_init [OF genesis_initialize])

lemma repricing_stop:
  "totalUsdGathered s div 1000000 < threshold s \<Longrightarrow> repricing s = Some (Inr s)"
  by (subst repricing.simps) simp

lemmas ops_defs =
  transact_def injectSupply_def transferIn_def transferOut_def emit_def balanceOf_def
  releaseZKTC_def releaseZKTC_accounting_def getAvailableForWithdrawal_def
  getTotalLockedTokens_def releaseZKTC_settle_def lockTokensForUser_def DonateToZCW_def
  UpdateAllocations_def withdraw_def withdraw_sevenMonth_def withdraw_oneYear_def
  setTokenPrice_def MAX_UINT256_def

subsection \<open>Lock-merge\<close>

lemma lock_Inr_cases:
  assumes "lockTokensForUser user amount now s = Inr s'"
  shows "user \<noteq> 0 \<and> amount > 0 \<and>
    (let L = userLockedTokens s user; L' = userLockedTokens s' user in
      sevenMonthClaimed L' = sevenMonthClaimed L \<and> oneYearClaimed L' = oneYearClaimed L \<and>
      (if totalAmount L > 0 then
         totalAmount L' = totalAmount L + amount \<and>
         sevenMonthAmount L' = sevenMonthAmount L + amount div 2 \<and>
         oneYearAmount L' = oneYearAmount L + (amount - amount div 2) \<and>
         lockTimestamp L' = lockTimestamp L
       else
         totalAmount L' = amount \<and> sevenMonthAmount L' = amount div 2 \<and>
         oneYearAmount L' = amount - amount div 2 \<and> lockTimestamp L' = now))"
  using assms by (auto simp add: lockTokensForUser_def Let_def emit_def split: if_splits)

lemma lock_succeeds:
  assumes "user \<noteq> 0" "amount > 0"
    and "totalAmount (userLockedTokens s user) + amount \<le> MAX_UINT256"
    and "sevenMonthAmount (userLockedTokens s user) + amount \<le> MAX_UINT256"
    and "oneYearAmount (userLockedTokens s user) + amount \<le> MAX_UINT256"
  shows "\<exists>s'. lockTokensForUser user amount now s = Inr s'"
proof (cases "totalAmount (userLockedTokens s user) > 0")
  case True
  have "\<not> totalAmount (userLockedTokens s user) > MAX_UINT256 - amount"
    "\<not> sevenMonthAmount (userLockedTokens s user) > MAX_UINT256 - amount div 2"
    "\<not> oneYearAmount (userLockedTokens s user) > MAX_UINT256 - (amount - amount div 2)"
    using assms(3-5) by linarith+
  with True assms(1,2) show ?thesis
    by (simp add: lockTokensForUser_def Let_def)
next
  case False
  with assms(1,2) show ?thesis
    by (simp add: lockTokensForUser_def Let_def)
qed

lemma lock_merge_agree:
  assumes "lockTokensForUser user a t1 s = Inr s1"
    and "lockTokensForUser user b t2 s1 = Inr s2"
    and "lockTokensForUser user (a + b) t3 s = Inr s12"
  shows "totalAmount (userLockedTokens s2 user) = totalAmount (userLockedTokens s12 user) \<and>
    within_one (sevenMonthAmount (userLockedTokens s2 user)) (sevenMonthAmount (userLockedTokens s12 user)) \<and>
    within_one (oneYearAmount (userLockedTokens s2 user)) (oneYearAmount (userLockedTokens s12 user))"
proof -
  note A = lock_Inr_cases[OF assms(1)] and B = lock_Inr_cases[OF assms(2)] and C = lock_Inr_cases[OF assms(3)]
  show ?thesis
  proof (cases "totalAmount (userLockedTokens s user) > 0")
    case True
    with A have "totalAmount (userLockedTokens s1 user) > 0" by (simp add: Let_def)
    with True A B C show ?thesis by (simp add: Let_def within_one_def) (intro conjI; linarith)
  next
    case False
    with A have "totalAmount (userLockedTokens s1 user) > 0" by (simp add: Let_def)
    with False A B C show ?thesis by (simp add: Let_def within_one_def) (intro conjI; linarith)
  qed
qed

lemma lock_twice_succeeds:
  assumes "user \<noteq> 0" "0 < a" "0 < b"
    and "totalAmount (userLockedTokens s user) + (a + b) \<le> MAX_UINT256"
    and "sevenMonthAmount (userLockedTokens s user) + (a + b) \<le> MAX_UINT256"
    and "oneYearAmount (userLockedTokens s user) + (a + b) \<le> MAX_UINT256"
  shows "\<exists>s1 s2. lockTokensForUser user a t1 s = Inr s1 \<and> lockTokensForUser user b t2 s1 = Inr s2"
proof -
  obtain s1 where s1: "lockTokensForUser user a t1 s = Inr s1"
    using lock_succeeds[of user a s t1] assms by auto
  note A = lock_Inr_cases[OF s1]
  have "totalAmount (userLockedTokens s1 user) + b \<le> MAX_UINT256"
    "sevenMonthAmount (userLockedTokens s1 user) + b \<le> MAX_UINT256"
    "oneYearAmount (userLockedTokens s1 user) + b \<le> MAX_UINT256"
    using A assms(4-6) by (auto simp: Let_def split: if_splits)
  then obtain s2 where "lockTokensForUser user b t2 s1 = Inr s2"
    using lock_succeeds[of user b s1 t2] assms by auto
  with s1 show ?thesis by auto
qed

text \<open>
  Claim C9. Lock-merge is associative up to the rounding of the halving: for a user other
  than the null address and amounts \<open>a > 0\<close>, \<open>b > 0\<close>, whenever locking \<open>a\<close> and then
  \<open>b\<close> succeeds and locking \<open>a + b\<close> at once succeeds, the two final locks have the same
  \<open>totalAmount\<close>, and their \<open>sevenMonthAmount\<close>s, as their \<open>oneYearAmount\<close>s, differ by
  at most one unit. All three calls do succeed when no sum leaves the range of \<open>uint256\<close>.
\<close>

theorem lock_merge_up_to_rounding:
  assumes "user \<noteq> 0" "0 < a" "0 < b"
  shows "(\<forall>s1 s2 s12.
            lockTokensForUser user a t1 s = Inr s1 \<and>
            lockTokensForUser user b t2 s1 = Inr s2 \<and>
            lockTokensForUser user (a + b) t3 s = Inr s12 \<longrightarrow>
              totalAmount (userLockedTokens s2 user) = totalAmount (userLockedTokens s12 user) \<and>
              within_one (sevenMonthAmount (userLockedTokens s2 user))
                         (sevenMonthAmount (userLockedTokens s12 user)) \<and>
              within_one (oneYearAmount (userLockedTokens s2 user))
                         (oneYearAmount (userLockedTokens s12 user))) \<and>
         (totalAmount (userLockedTokens s user) + (a + b) \<le> MAX_UINT256 \<and>
          sevenMonthAmount (userLockedTokens s user) + (a + b) \<le> MAX_UINT256 \<and>
          oneYearAmount (userLockedTokens s user) + (a + b) \<le> MAX_UINT256 \<longrightarrow>
            (\<exists>s1 s2 s12.
               lockTokensForUser user a t1 s = Inr s1 \<and>
               lockTokensForUser user b t2 s1 = Inr s2 \<and>
               lockTokensForUser user (a + b) t3 s = Inr s12))"
proof -
  have agree: "\<And>s1 s2 s12.
      lockTokensForUser user a t1 s = Inr s1 \<Longrightarrow>
      lockTokensForUser user b t2 s1 = Inr s2 \<Longrightarrow>
      lockTokensForUser user (a + b) t3 s = Inr s12 \<Longrightarrow>
        totalAmount (userLockedTokens s2 user) = totalAmount (userLockedTokens s12 user) \<and>
        within_one (sevenMonthAmount (userLockedTokens s2 user))
                   (sevenMonthAmount (userLockedTokens s12 user)) \<and>
        within_one (oneYearAmount (userLockedTokens s2 user))
                   (oneYearAmount (userLockedTokens s12 user))"
    by (rule lock_merge_agree)
  have succeed: "\<exists>s1 s2 s12.
         lockTokensForUser user a t1 s = Inr s1 \<and>
         lockTokensForUser user b t2 s1 = Inr s2 \<and>
         lockTokensForUser user (a + b) t3 s = Inr s12"
    if b: "totalAmount (userLockedTokens s user) + (a + b) \<le> MAX_UINT256"
          "sevenMonthAmount (userLockedTokens s user) + (a + b) \<le> MAX_UINT256"
          "oneYearAmount (userLockedTokens s user) + (a + b) \<le> MAX_UINT256"
  proof -
    obtain s1 s2 where
      "lockTokensForUser user a t1 s = Inr s1 \<and> lockTokensForUser user b t2 s1 = Inr s2"
      using lock_twice_succeeds[of user a b s t1 t2] assms b by blast
    moreover obtain s12 where "lockTokensForUser user (a + b) t3 s = Inr s12"
      using lock_succeeds[of user "a + b" s t3] assms b by auto
    ultimately show ?thesis by blast
  qed
  from agree succeed show ?thesis by blast
qed


theorem lock_merge_up_to_rounding_witness:
  "(2::nat) \<noteq> 0 \<and> (0::nat) < 3 \<and> (0::nat) < 5 \<and>
   (\<exists>s1 s2 s12.
      lockTokensForUser 2 3 1 genesis = Inr s1 \<and>
      lockTokensForUser 2 5 2 s1 = Inr s2 \<and>
      lockTokensForUser 2 (3 + 5) 3 genesis = Inr s12 \<and>
      totalAmount (userLockedTokens s2 2) = totalAmount (userLockedTokens s12 2) \<and>
      within_one (sevenMonthAmount (userLockedTokens s2 2))
                 (sevenMonthAmount (userLockedTokens s12 2)) \<and>
      within_one (oneYearAmount (userLockedTokens s2 2))
                 (oneYearAmount (userLockedTokens s12 2)))"
proof -
  have pre: "(2::nat) \<noteq> 0" "(0::nat) < 3" "(0::nat) < 5"
    by simp_all
  have bounds:
    "totalAmount (userLockedTokens genesis 2) + (3 + 5) \<le> MAX_UINT256 \<and>
     sevenMonthAmount (userLockedTokens genesis 2) + (3 + 5) \<le> MAX_UINT256 \<and>
     oneYearAmount (userLockedTokens genesis 2) + (3 + 5) \<le> MAX_UINT256"
    by (simp add: genesis_def MAX_UINT256_def)
  note T = lock_merge_up_to_rounding [OF pre, of 1 genesis 2 3]
  from T bounds obtain s1 s2 s12 where
    ok: "lockTokensForUser 2 3 1 genesis = Inr s1 \<and>
         lockTokensForUser 2 5 2 s1 = Inr s2 \<and>
         lockTokensForUser 2 (3 + 5) 3 genesis = Inr s12"
    by blast
  with T have
    "totalAmount (userLockedTokens s2 2) = totalAmount (userLockedTokens s12 2) \<and>
     within_one (sevenMonthAmount (userLockedTokens s2 2))
                (sevenMonthAmount (userLockedTokens s12 2)) \<and>
     within_one (oneYearAmount (userLockedTokens s2 2))
                (oneYearAmount (userLockedTokens s12 2))"
    by blast
  with ok pre show ?thesis by blast
qed

subsection \<open>The repricing loop\<close>

lemma reprice_checkpoint_Inr:
  assumes "reprice_checkpoint p n s = Inr s'"
  shows "tokenPrice s' = tokenPrice s \<and> totalUsdGathered s' = totalUsdGathered s \<and>
         (if tokenPrice s = p
          then incrementThreshold s' = n \<and> threshold s' = threshold s - incrementThreshold s + n
             \<and> incrementThreshold s \<le> threshold s
          else incrementThreshold s' = incrementThreshold s \<and> threshold s' = threshold s)"
  using assms by (auto simp: reprice_checkpoint_def Let_def emit_def split: if_splits)

lemma reprice_checkpoint_inv:
  assumes "reprice_checkpoint p n s = Inr s'" "0 < n"
    and "threshold s = t + incrementThreshold s" "0 < incrementThreshold s"
  shows "threshold s' = t + incrementThreshold s' \<and> 0 < incrementThreshold s'
       \<and> tokenPrice s' = tokenPrice s \<and> totalUsdGathered s' = totalUsdGathered s"
  using reprice_checkpoint_Inr[OF assms(1)] assms(2-4) by (auto split: if_splits)

lemma reprice_step_progress:
  assumes "reprice_step s = Inr s'" "0 < incrementThreshold s"
  shows "threshold s < threshold s' \<and> 0 < incrementThreshold s'
       \<and> tokenPrice s' = tokenPrice s + 1000 \<and> totalUsdGathered s' = totalUsdGathered s"
proof -
  define s3 where "s3 = emit (PriceThresholdUpdated (threshold s + incrementThreshold s) (tokenPrice s + 1000))
      (s\<lparr>tokenPrice := tokenPrice s + 1000, threshold := threshold s + incrementThreshold s\<rparr>)"
  have s3: "threshold s3 = threshold s + incrementThreshold s3" "0 < incrementThreshold s3"
    "tokenPrice s3 = tokenPrice s + 1000" "totalUsdGathered s3 = totalUsdGathered s"
    using assms(2) by (simp_all add: s3_def emit_def)
  from assms(1) obtain s4 s5 where
    c1: "reprice_checkpoint 7000 325000 s3 = Inr s4" and
    c2: "reprice_checkpoint 8000 350000 s4 = Inr s5" and
    c3: "reprice_checkpoint 11000 400000 s5 = Inr s'"
    by (auto simp: reprice_step_def Let_def s3_def split: if_splits sum.splits)
  note i1 = reprice_checkpoint_inv[OF c1 _ s3(1,2)]
  have i1': "threshold s4 = threshold s + incrementThreshold s4" "0 < incrementThreshold s4"
    "tokenPrice s4 = tokenPrice s3" "totalUsdGathered s4 = totalUsdGathered s3"
    using i1 by simp_all
  note i2 = reprice_checkpoint_inv[OF c2 _ i1'(1,2)]
  have i2': "threshold s5 = threshold s + incrementThreshold s5" "0 < incrementThreshold s5"
    "tokenPrice s5 = tokenPrice s4" "totalUsdGathered s5 = totalUsdGathered s4"
    using i2 by simp_all
  note i3 = reprice_checkpoint_inv[OF c3 _ i2'(1,2)]
  have "threshold s' = threshold s + incrementThreshold s'" "0 < incrementThreshold s'"
    "tokenPrice s' = tokenPrice s5" "totalUsdGathered s' = totalUsdGathered s5"
    using i3 by simp_all
  with s3 i1' i2' show ?thesis by simp
qed

lemma repricing_terminates:
  "0 < incrementThreshold s \<Longrightarrow> \<exists>r. repricing s = Some r"
proof (induction "totalUsdGathered s div 1000000 + 1 - threshold s" arbitrary: s rule: less_induct)
  case less
  show ?case
  proof (cases "totalUsdGathered s div 1000000 \<ge> threshold s")
    case False
    then show ?thesis by (subst repricing.simps) simp
  next
    case True
    show ?thesis
    proof (cases "reprice_step s")
      case (Inl x)
      with True show ?thesis by (subst repricing.simps) simp
    next
      case (Inr s')
      note p = reprice_step_progress[OF Inr less.prems]
      have "totalUsdGathered s' div 1000000 + 1 - threshold s' < totalUsdGathered s div 1000000 + 1 - threshold s"
        using p True by linarith
      from less.hyps[OF this] p obtain r where "repricing s' = Some r" by auto
      with True Inr show ?thesis by (subst repricing.simps) simp
    qed
  qed
qed


lemma reprice_step_Inr:
  assumes "reprice_step s = Inr s'"
  shows "tokenPrice s' = tokenPrice s + 1000 \<and> totalUsdGathered s' = totalUsdGathered s"
proof -
  define s3 where "s3 = emit (PriceThresholdUpdated (threshold s + incrementThreshold s) (tokenPrice s + 1000))
      (s\<lparr>tokenPrice := tokenPrice s + 1000, threshold := threshold s + incrementThreshold s\<rparr>)"
  have s3: "tokenPrice s3 = tokenPrice s + 1000" "totalUsdGathered s3 = totalUsdGathered s"
    by (simp_all add: s3_def emit_def)
  from assms obtain s4 s5 where
    c1: "reprice_checkpoint 7000 325000 s3 = Inr s4" and
    c2: "reprice_checkpoint 8000 350000 s4 = Inr s5" and
    c3: "reprice_checkpoint 11000 400000 s5 = Inr s'"
    by (auto simp: reprice_step_def Let_def s3_def split: if_splits sum.splits)
  from reprice_checkpoint_Inr[OF c1] reprice_checkpoint_Inr[OF c2] reprice_checkpoint_Inr[OF c3] s3
  show ?thesis by simp
qed

lemma repricing_price_mono_aux:
  assumes "repricing s = Some r"
  shows "\<forall>s'. r = Inr s' \<longrightarrow> tokenPrice s \<le> tokenPrice s'"
  using assms
proof (induct rule: repricing.raw_induct[rotated 1, consumes 1, case_names step])
  case (step loop s r)
  show ?case
  proof (cases "threshold s \<le> totalUsdGathered s div 1000000")
    case False
    with step(2) show ?thesis by auto
  next
    case True
    show ?thesis
    proof (intro allI impI)
      fix s' assume "r = Inr s'"
      with True step(2) obtain s1 where st: "reprice_step s = Inr s1" and r: "loop s1 = Some (Inr s')"
        by (auto split: sum.splits)
      from step(1)[OF r] reprice_step_Inr[OF st] show "tokenPrice s \<le> tokenPrice s'" by simp
    qed
  qed
qed

lemma repricing_price_mono:
  "repricing s = Some (Inr s') \<Longrightarrow> tokenPrice s \<le> tokenPrice s'"
  using repricing_price_mono_aux by blast

lemma repricing_increment_pos_aux:
  assumes "repricing s = Some r"
  shows "0 < incrementThreshold s \<longrightarrow> (\<forall>s'. r = Inr s' \<longrightarrow> 0 < incrementThreshold s')"
  using assms
proof (induct rule: repricing.raw_induct[rotated 1, consumes 1, case_names step])
  case (step loop s r)
  show ?case
  proof (cases "threshold s \<le> totalUsdGathered s div 1000000")
    case False
    with step(2) show ?thesis by auto
  next
    case True
    show ?thesis
    proof (intro allI impI)
      fix s' assume pos: "0 < incrementThreshold s" and "r = Inr s'"
      with True step(2) obtain s1 where st: "reprice_step s = Inr s1" and r: "loop s1 = Some (Inr s')"
        by (auto split: sum.splits)
      from step(1)[OF r] reprice_step_progress[OF st pos] show "0 < incrementThreshold s'" by simp
    qed
  qed
qed

lemma repricing_increment_pos:
  "repricing s = Some (Inr s') \<Longrightarrow> 0 < incrementThreshold s \<Longrightarrow> 0 < incrementThreshold s'"
  using repricing_increment_pos_aux by blast

subsection \<open>What each operation does to the price and to the increment\<close>

lemma lockTokensForUser_frame:
  assumes "lockTokensForUser user amount now s = Inr s'"
  shows "tokenPrice s' = tokenPrice s \<and> incrementThreshold s' = incrementThreshold s"
  using assms by (auto simp: lockTokensForUser_def Let_def emit_def split: if_splits)

lemma releaseZKTC_accounting_frame:
  assumes "releaseZKTC_accounting sender now amount buyer donationAmount s = Inr (tb, d, s2)"
  shows "tokenPrice s2 = tokenPrice s \<and> incrementThreshold s2 = incrementThreshold s"
  using assms
  by (auto simp: releaseZKTC_accounting_def Let_def split: if_splits sum.splits)

lemma releaseZKTC_settle_frame:
  assumes "releaseZKTC_settle now buyer tb d s = Inr s'"
  shows "tokenPrice s' = tokenPrice s \<and> incrementThreshold s' = incrementThreshold s"
  using assms
  by (auto simp: releaseZKTC_settle_def Let_def emit_def split: if_splits sum.splits
      dest!: lockTokensForUser_frame)

lemma releaseZKTC_Inr:
  assumes "releaseZKTC sender now amount buyer donationAmount s = Some (Inr s')"
  shows "\<exists>tb d s2 s3. releaseZKTC_accounting sender now amount buyer donationAmount s = Inr (tb, d, s2)
     \<and> repricing s2 = Some (Inr s3) \<and> releaseZKTC_settle now buyer tb d s3 = Inr s'"
  using assms
  by (auto simp: releaseZKTC_def split: sum.splits option.splits prod.splits)

lemma releaseZKTC_price:
  assumes "releaseZKTC sender now amount buyer donationAmount s = Some (Inr s')"
  shows "tokenPrice s \<le> tokenPrice s'"
proof -
  from releaseZKTC_Inr[OF assms] obtain tb d s2 s3 where
    a: "releaseZKTC_accounting sender now amount buyer donationAmount s = Inr (tb, d, s2)" and
    r: "repricing s2 = Some (Inr s3)" and
    f: "releaseZKTC_settle now buyer tb d s3 = Inr s'" by blast
  from releaseZKTC_accounting_frame[OF a] repricing_price_mono[OF r] releaseZKTC_settle_frame[OF f]
  show ?thesis by simp
qed

lemma releaseZKTC_increment:
  assumes "releaseZKTC sender now amount buyer donationAmount s = Some (Inr s')"
    and "0 < incrementThreshold s"
  shows "0 < incrementThreshold s'"
proof -
  from releaseZKTC_Inr[OF assms(1)] obtain tb d s2 s3 where
    a: "releaseZKTC_accounting sender now amount buyer donationAmount s = Inr (tb, d, s2)" and
    r: "repricing s2 = Some (Inr s3)" and
    f: "releaseZKTC_settle now buyer tb d s3 = Inr s'" by blast
  from releaseZKTC_accounting_frame[OF a] assms(2) have "0 < incrementThreshold s2" by simp
  from repricing_increment_pos[OF r this] releaseZKTC_settle_frame[OF f]
  show ?thesis by simp
qed

lemma withdraw_frame:
  assumes "withdraw sender now s = Inr s'"
  shows "tokenPrice s' = tokenPrice s \<and> incrementThreshold s' = incrementThreshold s"
  using assms
  by (auto simp: withdraw_def withdraw_sevenMonth_def withdraw_oneYear_def Let_def emit_def
      transferOut_def split: if_splits sum.splits option.splits prod.splits)

lemma exec_other_frame:
  assumes "exec c sender now s = Some (Inr s')"
    and "\<forall>p. c \<noteq> Call_setTokenPrice p" "\<forall>n. c \<noteq> Call_updatePriceThresholds n"
    and "\<forall>n b d. c \<noteq> Call_releaseZKTC n b d" "c \<noteq> Call_withdraw"
  shows "tokenPrice s' = tokenPrice s \<and> incrementThreshold s' = incrementThreshold s"
proof (cases c)
  case (Call_UpdateAllocations u n)
  with assms(1) show ?thesis
    by (auto simp: UpdateAllocations_def Let_def split: if_splits dest!: lockTokensForUser_frame)
qed (use assms in \<open>auto simp: setWalletSupplier_def setWalletAddresses_def setDCOEndTime_def
      injectSupply_def addReleaser_def removeReleaser_def DonateToZCW_def updateZCW_def
      updateThreshold_def updateUsdtGathered_def withdrawParticularZKTC_def withdrawAllZKTC_def
      setTimePeriods_def Let_def emit_def transferOut_def transferIn_def
      split: if_splits sum.splits option.splits\<close>)

lemma exec_price:
  assumes "exec c sender now s = Some (Inr s')" "\<forall>p. c \<noteq> Call_setTokenPrice p"
  shows "tokenPrice s \<le> tokenPrice s'"
proof (cases c)
  case (Call_releaseZKTC n b d)
  with assms(1) releaseZKTC_price show ?thesis by simp
next
  case Call_withdraw
  with assms(1) withdraw_frame show ?thesis by simp
next
  case (Call_updatePriceThresholds n)
  with assms(1) show ?thesis by (auto simp: updatePriceThresholds_def split: if_splits)
next
  case (Call_setTokenPrice p)
  with assms(2) show ?thesis by simp
qed (use assms exec_other_frame[of c sender now s s'] in simp_all)

lemma exec_increment:
  assumes "exec c sender now s = Some (Inr s')" "0 < incrementThreshold s"
  shows "0 < incrementThreshold s'"
proof (cases c)
  case (Call_releaseZKTC n b d)
  with assms releaseZKTC_increment show ?thesis by simp
next
  case Call_withdraw
  with assms withdraw_frame show ?thesis by simp
next
  case (Call_updatePriceThresholds n)
  with assms(1) show ?thesis by (auto simp: updatePriceThresholds_def split: if_splits)
next
  case (Call_setTokenPrice p)
  with assms show ?thesis by (auto simp: setTokenPrice_def emit_def Let_def split: if_splits)
qed (use assms exec_other_frame[of c sender now s s'] in simp_all)

lemma transact_Success:
  "transact c sender now s = Some (Success, s') \<longleftrightarrow> exec c sender now s = Some (Inr s')"
  by (auto simp: transact_def split: option.splits sum.splits prod.splits)

lemma reachable_increment: "reachable s \<Longrightarrow> 0 < incrementThreshold s"
proof (induction rule: reachable.induct)
  case (reach_init initialOwner price zktc zcw now this bal s)
  then show ?case
    by (auto simp: initialize_def Let_def fresh_def split: if_splits)
next
  case (reach_call s c sender now s')
  then show ?case using exec_increment by (simp add: transact_Success)
next
  case (reach_token s bal)
  then show ?case by simp
qed

lemma repricing_more:
  "threshold s \<le> totalUsdGathered s div 1000000 \<Longrightarrow>
   repricing s = (case reprice_step s of Inl x \<Rightarrow> Some (Inl x) | Inr s' \<Rightarrow> repricing s')"
  by (subst repricing.simps) simp

lemma releaseZKTC_returns:
  assumes "0 < incrementThreshold s"
  shows "\<exists>r. releaseZKTC sender now amount buyer donationAmount s = Some r"
proof (cases "releaseZKTC_accounting sender now amount buyer donationAmount s")
  case (Inl x)
  then show ?thesis by (simp add: releaseZKTC_def)
next
  case (Inr p)
  obtain tb d s2 where p: "p = (tb, d, s2)" by (cases p)
  from releaseZKTC_accounting_frame[OF Inr[unfolded p]] assms have "0 < incrementThreshold s2" by simp
  from repricing_terminates[OF this] obtain r where "repricing s2 = Some r" by blast
  with Inr p show ?thesis by (cases r) (simp_all add: releaseZKTC_def)
qed

text \<open>
  Claim C8. When \<open>incrementThreshold\<close> is positive the repricing loop terminates (it
  returns a result, a ledger or a revert), and so does every call of \<open>releaseZKTC\<close> on a
  reachable ledger. \<open>updatePriceThresholds\<close> never accepts zero: called by a releaser it
  reverts with \<open>InvalidIncrementThreshold\<close>. \<open>incrementThreshold\<close> is positive in every
  reachable ledger.
\<close>

theorem repricing_loop_terminates:
  "(0 < incrementThreshold s \<longrightarrow> (\<exists>r. repricing s = Some r)) \<and>
   (\<forall>s'. updatePriceThresholds sender 0 s \<noteq> Inr s') \<and>
   (sender \<in> releasers s \<longrightarrow>
      updatePriceThresholds sender 0 s = Inl (InvalidIncrementThreshold, s)) \<and>
   (reachable s \<longrightarrow>
      0 < incrementThreshold s \<and>
      (\<exists>r. releaseZKTC sender now amount buyer donationAmount s = Some r))"
  using repricing_terminates[of s] reachable_increment[of s]
    releaseZKTC_returns[of s sender now amount buyer donationAmount]
  by (auto simp: updatePriceThresholds_def)

theorem repricing_loop_terminates_witness:
  "0 < incrementThreshold (genesis\<lparr>totalUsdGathered := 137500000000\<rparr>) \<and>
   (\<exists>r. repricing (genesis\<lparr>totalUsdGathered := 137500000000\<rparr>) = Some r) \<and>
   1 \<in> releasers genesis \<and>
   updatePriceThresholds 1 0 genesis = Inl (InvalidIncrementThreshold, genesis) \<and>
   reachable genesis \<and> 0 < incrementThreshold genesis \<and>
   (\<exists>r. releaseZKTC 1 1 137500000000 2 0 genesis = Some r)"
proof -
  have a: "0 < incrementThreshold (genesis\<lparr>totalUsdGathered := 137500000000\<rparr>)"
    by (simp add: genesis_def)
  have b: "1 \<in> releasers genesis" by (simp add: genesis_def)
  from a repricing_loop_terminates[of "genesis\<lparr>totalUsdGathered := 137500000000\<rparr>"]
  have c: "\<exists>r. repricing (genesis\<lparr>totalUsdGathered := 137500000000\<rparr>) = Some r" by blast
  from b genesis_reachable repricing_loop_terminates[of genesis 1 1 137500000000 2 0]
  have d: "updatePriceThresholds 1 0 genesis = Inl (InvalidIncrementThreshold, genesis) \<and>
     0 < incrementThreshold genesis \<and> (\<exists>r. releaseZKTC 1 1 137500000000 2 0 genesis = Some r)"
    by blast
  from a b c d genesis_reachable show ?thesis by blast
qed

subsection \<open>The concrete ledgers are reachable\<close>

lemmas run_defs = ledger_after_def outcomes_of_def genesis_def genesis_balances_def ops_defs

lemma funded_transact:
  "transact (Call_injectSupply (10 ^ 12)) 1 0 genesis = Some (Success, funded)"
  by (simp add: funded_def run_defs)

lemma funded_reachable: "reachable funded"
  by (rule reach_call [OF genesis_reachable funded_transact])

lemma reallocated_transact:
  "transact (Call_UpdateAllocations 2 1) 1 1 genesis = Some (Success, reallocated)"
  by (simp add: reallocated_def run_defs)

lemma reallocated_reachable: "reachable reallocated"
  by (rule reach_call [OF genesis_reachable reallocated_transact])

subsection \<open>The supply invariant\<close>

text \<open>
  Claim C1 states that in every reachable ledger \<open>tokenSold\<close> is at most the held balance
  minus \<open>totalDonations\<close>. The code does not keep this: \<open>releaseZKTC\<close> adds the donation
  tokens to \<open>tokenSold\<close> and again to \<open>totalDonations\<close>. After the owner injects 100 token
  units and a releaser records a donation worth 60, both counters are 60 while the balance
  is 100, and \<open>getAvailableForWithdrawal\<close> reverts on the underflow.
\<close>

theorem donation_counted_twice:
  "outcomes_of [(Call_injectSupply 100, 1, 0), (Call_releaseZKTC 0 2 60, 1, 1)] genesis
     = [Success, Success] \<and>
   tokenSold (ledger_after [(Call_injectSupply 100, 1, 0), (Call_releaseZKTC 0 2 60, 1, 1)] genesis) = 60 \<and>
   totalDonations (ledger_after [(Call_injectSupply 100, 1, 0), (Call_releaseZKTC 0 2 60, 1, 1)] genesis) = 60 \<and>
   balances (ledger_after [(Call_injectSupply 100, 1, 0), (Call_releaseZKTC 0 2 60, 1, 1)] genesis) 100 = 100 \<and>
   getAvailableForWithdrawal
     (ledger_after [(Call_injectSupply 100, 1, 0), (Call_releaseZKTC 0 2 60, 1, 1)] genesis) = Inl Panic"
  by (simp add: run_defs repricing_stop)

text \<open>
  A user's \<open>withdraw\<close> lowers the balance and leaves \<open>tokenSold\<close> as it was, which breaks
  the same inequality: 100 sold, 50 claimed, 50 held.
\<close>

lemma claim_leaves_tokenSold:
  "outcomes_of [(Call_injectSupply 100, 1, 0), (Call_releaseZKTC 100 2 0, 1, 1),
                (Call_withdraw, 2, 20000000)] genesis = [Success, Success, Success] \<and>
   tokenSold (ledger_after [(Call_injectSupply 100, 1, 0), (Call_releaseZKTC 100 2 0, 1, 1),
                (Call_withdraw, 2, 20000000)] genesis) = 100 \<and>
   balances (ledger_after [(Call_injectSupply 100, 1, 0), (Call_releaseZKTC 100 2 0, 1, 1),
                (Call_withdraw, 2, 20000000)] genesis) 100 = 50"
  by (simp add: run_defs repricing_stop)

subsection \<open>Donation flush\<close>

text \<open>
  Claim C2 states that \<open>DonateToZCW\<close> transfers the whole of \<open>totalDonations\<close> to the
  charity wallet, resets the counter, and reports the transferred amount in its event. With
  \<open>totalDonations = 5000\<close> the code transfers 5000 to the wallet (address 9) and resets the
  counter, but the event is emitted after the reset and carries 0.
\<close>

theorem DonateToZCW_event_reports_zero:
  "outcomes_of [(Call_injectSupply 10000, 1, 0), (Call_releaseZKTC 0 2 5000, 1, 1),
                (Call_DonateToZCW, 1, 2)] genesis = [Success, Success, Success] \<and>
   totalDonations (ledger_after [(Call_injectSupply 10000, 1, 0), (Call_releaseZKTC 0 2 5000, 1, 1)]
                     genesis) = 5000 \<and>
   totalDonations (ledger_after [(Call_injectSupply 10000, 1, 0), (Call_releaseZKTC 0 2 5000, 1, 1),
                (Call_DonateToZCW, 1, 2)] genesis) = 0 \<and>
   balances (ledger_after [(Call_injectSupply 10000, 1, 0), (Call_releaseZKTC 0 2 5000, 1, 1),
                (Call_DonateToZCW, 1, 2)] genesis) 9 = 5000 \<and>
   last (events (ledger_after [(Call_injectSupply 10000, 1, 0), (Call_releaseZKTC 0 2 5000, 1, 1),
                (Call_DonateToZCW, 1, 2)] genesis)) = ZCWDonated 0 2"
  by (simp add: run_defs repricing_stop)

text \<open>
  The same holds in every ledger: whenever the flush succeeds, the event carries 0.
\<close>

lemma DonateToZCW_event:
  assumes "sender \<in> releasers s" "0 < totalDonations s"
    and "totalDonations s \<le> balances s (self s)"
  shows "\<exists>s'. DonateToZCW sender now s = Inr s' \<and> totalDonations s' = 0 \<and>
           last (events s') = ZCWDonated 0 now"
  using assms by (simp add: DonateToZCW_def transferOut_def emit_def Let_def)

subsection \<open>Withdrawal after both tranches are claimed\<close>

text \<open>
  Claim C3 states that once both tranches are fully claimed every further \<open>withdraw\<close> of
  that user fails with the nothing-to-withdraw error. In the code, after the one-year mark
  such a call does not revert: it transfers 0 tokens, emits \<open>TokensWithdrawn\<close> with
  amount 0, and changes nothing else.
\<close>

theorem withdraw_after_full_claim_succeeds:
  "outcomes_of [(Call_injectSupply 100, 1, 0), (Call_releaseZKTC 10 2 0, 1, 1),
                (Call_withdraw, 2, 30000000)] genesis = [Success, Success, Success] \<and>
   userLockedTokens (ledger_after [(Call_injectSupply 100, 1, 0), (Call_releaseZKTC 10 2 0, 1, 1),
                (Call_withdraw, 2, 30000000)] genesis) 2
     = \<lparr>totalAmount = 10, sevenMonthAmount = 5, oneYearAmount = 5, sevenMonthClaimed = 5,
        oneYearClaimed = 5, lockTimestamp = 1\<rparr> \<and>
   withdraw 2 30000001 (ledger_after [(Call_injectSupply 100, 1, 0), (Call_releaseZKTC 10 2 0, 1, 1),
                (Call_withdraw, 2, 30000000)] genesis)
     = Inr (emit (TokensWithdrawn 2 0 2)
         (ledger_after [(Call_injectSupply 100, 1, 0), (Call_releaseZKTC 10 2 0, 1, 1),
                (Call_withdraw, 2, 30000000)] genesis))"
  by (simp add: run_defs repricing_stop fun_eq_iff)

text \<open>
  In every ledger, once both tranches are claimed and both marks have passed, \<open>withdraw\<close>
  succeeds, moves no token and emits an event with amount 0.
\<close>

lemma withdraw_nothing_left:
  assumes "0 < totalAmount (userLockedTokens s sender)"
    and "sevenMonthClaimed (userLockedTokens s sender) = sevenMonthAmount (userLockedTokens s sender)"
    and "oneYearClaimed (userLockedTokens s sender) = oneYearAmount (userLockedTokens s sender)"
    and "SEVEN_MONTHS s \<le> now" "ONE_YEAR s \<le> now"
    and "lockTimestamp (userLockedTokens s sender) + ONE_YEAR s \<le> MAX_UINT256"
  shows "\<exists>s'. withdraw sender now s = Inr s' \<and> balances s' = balances s \<and>
           (\<exists>stage. last (events s') = TokensWithdrawn sender 0 stage)"
  using assms
  by (simp add: withdraw_def withdraw_sevenMonth_def withdraw_oneYear_def transferOut_def
      balanceOf_def emit_def Let_def fun_eq_iff)

subsection \<open>Claimed amounts and re-allocation\<close>

text \<open>
  Claim C4 states that \<open>sevenMonthClaimed \<le> sevenMonthAmount\<close> and
  \<open>oneYearClaimed \<le> oneYearAmount\<close> hold in every reachable ledger and that
  \<open>UpdateAllocations\<close> preserves them. \<open>UpdateAllocations\<close> zeroes \<open>totalAmount\<close>, so the
  lock-merge takes its first-lock branch and overwrites both tranche amounts, while the
  claimed counters stay. A user who has claimed \<open>2 * 10 ^ 18\<close> of the seven-month tranche
  and is re-allocated one token is left with \<open>sevenMonthAmount = 5 * 10 ^ 17\<close> below
  \<open>sevenMonthClaimed\<close>, and the next \<open>withdraw\<close> of that user reverts on the underflow.
\<close>

theorem UpdateAllocations_keeps_claimed:
  "outcomes_of [(Call_UpdateAllocations 2 4, 1, 1), (Call_injectSupply (2 * 10 ^ 18), 1, 2),
                (Call_withdraw, 2, 20000000), (Call_UpdateAllocations 2 1, 1, 20000001)] genesis
     = [Success, Success, Success, Success] \<and>
   userLockedTokens (ledger_after [(Call_UpdateAllocations 2 4, 1, 1),
                (Call_injectSupply (2 * 10 ^ 18), 1, 2), (Call_withdraw, 2, 20000000),
                (Call_UpdateAllocations 2 1, 1, 20000001)] genesis) 2
     = \<lparr>totalAmount = 1000000000000000000, sevenMonthAmount = 500000000000000000,
        oneYearAmount = 500000000000000000, sevenMonthClaimed = 2000000000000000000,
        oneYearClaimed = 0, lockTimestamp = 20000001\<rparr> \<and>
   outcomes_of [(Call_UpdateAllocations 2 4, 1, 1), (Call_injectSupply (2 * 10 ^ 18), 1, 2),
                (Call_withdraw, 2, 20000000), (Call_UpdateAllocations 2 1, 1, 20000001),
                (Call_withdraw, 2, 20000002)] genesis
     = [Success, Success, Success, Success, Reverted Panic]"
  by (simp add: run_defs repricing_stop)

subsection \<open>Quotes\<close>

lemma getQuote_pair:
  assumes "0 < tokenPrice s"
    and "getQuote usdtAmount donationAmount s = Inr (tp, td)"
  shows "td = (donationAmount * 10 ^ 18) div tokenPrice s \<and>
         tp \<le> (usdtAmount * 10 ^ 18) div tokenPrice s \<and>
         (usdtAmount = 0 \<longrightarrow> tp = 0)"
  using assms by (auto simp: getQuote_def Let_def split: if_splits)

lemma getQuote_bound:
  assumes "0 < tokenPrice s" "tokenSold s = 0" "getAvailableForWithdrawal s = Inr A"
    and "getQuote usdtAmount donationAmount s = Inr (tp, td)"
  shows "(A = 0 \<longrightarrow> tp = 0) \<and>
         (0 < usdtAmount \<and> 0 < A \<longrightarrow>
            tp + td \<le> A \<and>
            (if A < (usdtAmount * 10 ^ 18) div tokenPrice s
                     + (donationAmount * 10 ^ 18) div tokenPrice s
             then tp + td = A
             else tp = (usdtAmount * 10 ^ 18) div tokenPrice s))"
  using assms
  by (auto simp: getQuote_def getAvailableForWithdrawal_def getTotalLockedTokens_def Let_def
      split: if_splits)

lemma getQuote_reverts:
  assumes "0 < tokenPrice s" "tokenSold s = 0" "getAvailableForWithdrawal s = Inr A"
    and "0 < usdtAmount" "0 < A" "A < (donationAmount * 10 ^ 18) div tokenPrice s"
  shows "getQuote usdtAmount donationAmount s \<noteq> Inr p"
  using assms
  by (auto simp: getQuote_def getAvailableForWithdrawal_def getTotalLockedTokens_def Let_def
      split: if_splits)

lemma getQuote_returns:
  assumes "0 < tokenPrice s" "tokenSold s = 0" "getAvailableForWithdrawal s = Inr A"
    and "usdtAmount * 10 ^ 18 \<le> MAX_UINT256" "donationAmount * 10 ^ 18 \<le> MAX_UINT256"
    and "(usdtAmount * 10 ^ 18) div tokenPrice s + (donationAmount * 10 ^ 18) div tokenPrice s
           \<le> MAX_UINT256"
    and "usdtAmount = 0 \<or> A = 0 \<or> (donationAmount * 10 ^ 18) div tokenPrice s \<le> A"
  shows "\<exists>tp td. getQuote usdtAmount donationAmount s = Inr (tp, td)"
  using assms
  by (auto simp: getQuote_def getAvailableForWithdrawal_def getTotalLockedTokens_def Let_def
      split: if_splits)

text \<open>
  Claim C5, as amended. For a positive \<open>tokenPrice\<close>, every pair that \<open>getQuote\<close> returns
  has donation tokens \<open>donationAmount * 10 ^ 18 div tokenPrice\<close>, never reduced, and
  purchase tokens at most \<open>usdtAmount * 10 ^ 18 div tokenPrice\<close>, which are 0 when the
  purchase amount is 0. In a ledger where nothing has been allocated yet (\<open>tokenSold = 0\<close>)
  and \<open>A\<close> tokens are available:
  \<^item> when the purchase amount is 0 or \<open>A = 0\<close>, the purchase tokens are 0 and the donation
    tokens are returned as they are, whatever \<open>A\<close> is;
  \<^item> when the purchase amount and \<open>A\<close> are positive, the sum of a returned pair is at most
    \<open>A\<close>; it is exactly \<open>A\<close> when the unclamped sum exceeds \<open>A\<close>, and the purchase tokens
    are unclamped when it does not;
  \<^item> when the purchase amount and \<open>A\<close> are positive and the donation tokens alone exceed
    \<open>A\<close>, the call reverts and returns no pair;
  \<^item> in every other case, short of an arithmetic overflow, a pair is returned.
\<close>

theorem getQuote_clamps_purchase_only:
  assumes "0 < tokenPrice s"
  shows
    "(\<forall>tp td. getQuote usdtAmount donationAmount s = Inr (tp, td) \<longrightarrow>
        td = (donationAmount * 10 ^ 18) div tokenPrice s \<and>
        tp \<le> (usdtAmount * 10 ^ 18) div tokenPrice s \<and>
        (usdtAmount = 0 \<longrightarrow> tp = 0)) \<and>
     (\<forall>A. tokenSold s = 0 \<and> getAvailableForWithdrawal s = Inr A \<longrightarrow>
        (\<forall>tp td. getQuote usdtAmount donationAmount s = Inr (tp, td) \<longrightarrow>
           (A = 0 \<longrightarrow> tp = 0) \<and>
           (0 < usdtAmount \<and> 0 < A \<longrightarrow>
              tp + td \<le> A \<and>
              (if A < (usdtAmount * 10 ^ 18) div tokenPrice s
                       + (donationAmount * 10 ^ 18) div tokenPrice s
               then tp + td = A
               else tp = (usdtAmount * 10 ^ 18) div tokenPrice s))) \<and>
        (0 < usdtAmount \<and> 0 < A \<and> A < (donationAmount * 10 ^ 18) div tokenPrice s \<longrightarrow>
           (\<forall>p. getQuote usdtAmount donationAmount s \<noteq> Inr p)) \<and>
        (usdtAmount * 10 ^ 18 \<le> MAX_UINT256 \<and> donationAmount * 10 ^ 18 \<le> MAX_UINT256 \<and>
         (usdtAmount * 10 ^ 18) div tokenPrice s + (donationAmount * 10 ^ 18) div tokenPrice s
           \<le> MAX_UINT256 \<and>
         (usdtAmount = 0 \<or> A = 0 \<or> (donationAmount * 10 ^ 18) div tokenPrice s \<le> A) \<longrightarrow>
           (\<exists>tp td. getQuote usdtAmount donationAmount s = Inr (tp, td))))"
proof -
  note p = assms
  have a: "\<forall>tp td. getQuote usdtAmount donationAmount s = Inr (tp, td) \<longrightarrow>
        td = (donationAmount * 10 ^ 18) div tokenPrice s \<and>
        tp \<le> (usdtAmount * 10 ^ 18) div tokenPrice s \<and>
        (usdtAmount = 0 \<longrightarrow> tp = 0)"
    using getQuote_pair[OF p] by blast
  have b: "\<forall>tp td. getQuote usdtAmount donationAmount s = Inr (tp, td) \<longrightarrow>
           (A = 0 \<longrightarrow> tp = 0) \<and>
           (0 < usdtAmount \<and> 0 < A \<longrightarrow>
              tp + td \<le> A \<and>
              (if A < (usdtAmount * 10 ^ 18) div tokenPrice s
                       + (donationAmount * 10 ^ 18) div tokenPrice s
               then tp + td = A
               else tp = (usdtAmount * 10 ^ 18) div tokenPrice s))"
    if "tokenSold s = 0" "getAvailableForWithdrawal s = Inr A" for A
    using getQuote_bound[OF p that] by blast
  have c: "\<forall>p. getQuote usdtAmount donationAmount s \<noteq> Inr p"
    if "tokenSold s = 0" "getAvailableForWithdrawal s = Inr A"
       "0 < usdtAmount \<and> 0 < A \<and> A < (donationAmount * 10 ^ 18) div tokenPrice s" for A
    using getQuote_reverts[OF p that(1,2)] that(3) by blast
  have d: "\<exists>tp td. getQuote usdtAmount donationAmount s = Inr (tp, td)"
    if "tokenSold s = 0" "getAvailableForWithdrawal s = Inr A"
       "usdtAmount * 10 ^ 18 \<le> MAX_UINT256 \<and> donationAmount * 10 ^ 18 \<le> MAX_UINT256 \<and>
         (usdtAmount * 10 ^ 18) div tokenPrice s + (donationAmount * 10 ^ 18) div tokenPrice s
           \<le> MAX_UINT256 \<and>
         (usdtAmount = 0 \<or> A = 0 \<or> (donationAmount * 10 ^ 18) div tokenPrice s \<le> A)" for A
    using getQuote_returns[OF p that(1,2)] that(3) by blast
  from a b c d show ?thesis by blast
qed

theorem getQuote_clamps_purchase_only_witness:
  "0 < tokenPrice funded \<and> tokenSold funded = 0 \<and>
   getAvailableForWithdrawal funded = Inr (10 ^ 12) \<and>
   getQuote (3 * 10 ^ 12) (10 ^ 11) funded = Inr (9 * 10 ^ 11, 10 ^ 11) \<and>
   (10 ^ 11 :: nat) = ((10 ^ 11) * 10 ^ 18) div tokenPrice funded \<and>
   (9 * 10 ^ 11 :: nat) \<le> ((3 * 10 ^ 12) * 10 ^ 18) div tokenPrice funded \<and>
   (9 * 10 ^ 11 :: nat) + 10 ^ 11 \<le> 10 ^ 12 \<and>
   (\<forall>p. getQuote 1 (2 * 10 ^ 12) funded \<noteq> Inr p) \<and>
   (\<exists>tp td. getQuote 0 (2 * 10 ^ 12) funded = Inr (tp, td))"
proof -
  have p: "0 < tokenPrice funded" and z: "tokenSold funded = 0"
    and price: "tokenPrice funded = 10 ^ 18"
    by (simp_all add: funded_def run_defs)
  have av: "getAvailableForWithdrawal funded = Inr (10 ^ 12)"
    by (simp add: funded_def run_defs)
  have "\<exists>tp td. getQuote (3 * 10 ^ 12) (10 ^ 11) funded = Inr (tp, td)"
    using getQuote_clamps_purchase_only[OF p, of "3 * 10 ^ 12" "10 ^ 11"] z av
    by (simp add: price MAX_UINT256_def)
  then obtain tp td where q: "getQuote (3 * 10 ^ 12) (10 ^ 11) funded = Inr (tp, td)" by blast
  from getQuote_clamps_purchase_only[OF p, of "3 * 10 ^ 12" "10 ^ 11"] q z av
  have td: "td = 10 ^ 11" and sum: "tp + td = 10 ^ 12"
    by (simp_all add: price)
  then have tp: "tp = 9 * 10 ^ 11" by simp
  have r: "\<forall>p. getQuote 1 (2 * 10 ^ 12) funded \<noteq> Inr p"
    using getQuote_clamps_purchase_only[OF p, of 1 "2 * 10 ^ 12"] z av by (simp add: price)
  have e: "\<exists>tp td. getQuote 0 (2 * 10 ^ 12) funded = Inr (tp, td)"
    using getQuote_clamps_purchase_only[OF p, of 0 "2 * 10 ^ 12"] z av
    by (simp add: price MAX_UINT256_def)
  from p z av q td tp r e show ?thesis by (simp add: price)
qed

text \<open>
  The claim as first stated fails in three ways. With a purchase amount of zero the quote for
  a donation is returned unclamped, here \<open>2 * 10 ^ 12\<close> tokens against \<open>10 ^ 12\<close>
  available. With a positive purchase amount and the same donation no pair is returned: the
  subtraction that clamps the purchase underflows. And once tokens have been allocated,
  \<open>getQuote\<close> still measures the purchase against the held balance minus
  \<open>totalDonations\<close>, where \<open>getTokenRemaining\<close> and \<open>releaseZKTC\<close> also deduct
  \<open>tokenSold\<close>: with 100 held and 60 sold it quotes 50 tokens while 40 are available. The
  statement above says nothing about the bound in such ledgers.
\<close>

theorem getQuote_exceeds_available:
  "reachable funded \<and> 0 < tokenPrice funded \<and>
   getAvailableForWithdrawal funded = Inr (10 ^ 12) \<and>
   getQuote 0 (2 * 10 ^ 12) funded = Inr (0, 2 * 10 ^ 12) \<and>
   \<not> (0 + 2 * 10 ^ 12 \<le> (10 ^ 12 :: nat)) \<and>
   getQuote 1 (2 * 10 ^ 12) funded = Inl Panic \<and>
   outcomes_of [(Call_injectSupply 100, 1, 0), (Call_releaseZKTC 60 2 0, 1, 1)] genesis
     = [Success, Success] \<and>
   getAvailableForWithdrawal
     (ledger_after [(Call_injectSupply 100, 1, 0), (Call_releaseZKTC 60 2 0, 1, 1)] genesis)
     = Inr 40 \<and>
   getQuote 50 0
     (ledger_after [(Call_injectSupply 100, 1, 0), (Call_releaseZKTC 60 2 0, 1, 1)] genesis)
     = Inr (50, 0)"
  using funded_reachable by (simp add: getQuote_def funded_def run_defs repricing_stop)

subsection \<open>Reverts\<close>

lemma reprice_checkpoint_Inl:
  "reprice_checkpoint p n s = Inl (e, d) \<Longrightarrow> e = Panic"
  by (auto simp: reprice_checkpoint_def Let_def split: if_splits)

lemma reprice_step_Inl:
  "reprice_step s = Inl (e, d) \<Longrightarrow> e = Panic"
  by (auto simp: reprice_step_def Let_def split: if_splits sum.splits
      dest: reprice_checkpoint_Inl)

lemma repricing_Inl_aux:
  assumes "repricing s = Some r"
  shows "\<forall>e d. r = Inl (e, d) \<longrightarrow> e = Panic"
  using assms
proof (induct rule: repricing.raw_induct[rotated 1, consumes 1, case_names step])
  case (step loop s r)
  show ?case
  proof (cases "threshold s \<le> totalUsdGathered s div 1000000")
    case False
    with step(2) show ?thesis by auto
  next
    case True
    show ?thesis
    proof (cases "reprice_step s")
      case (Inl x)
      with True step(2) reprice_step_Inl[of s "fst x" "snd x"] show ?thesis by auto
    next
      case (Inr s1)
      with True step(2) have "loop s1 = Some r" by simp
      from step(1)[OF this] show ?thesis .
    qed
  qed
qed

lemma repricing_Inl: "repricing s = Some (Inl (e, d)) \<Longrightarrow> e = Panic"
  using repricing_Inl_aux by blast

lemma lockTokensForUser_Inl:
  "lockTokensForUser user amount now s = Inl (e, d) \<Longrightarrow> user \<noteq> 0 \<Longrightarrow> 0 < amount
     \<Longrightarrow> e = OverflowDetected"
  by (auto simp: lockTokensForUser_def Let_def split: if_splits)

lemma releaseZKTC_accounting_Inl:
  "releaseZKTC_accounting sender now amount buyer donationAmount s = Inl (e, d)
     \<Longrightarrow> e \<noteq> Panic \<Longrightarrow> d = s"
  by (auto simp: releaseZKTC_accounting_def getAvailableForWithdrawal_def Let_def
      split: if_splits sum.splits)

lemma releaseZKTC_accounting_buyer:
  "releaseZKTC_accounting sender now amount buyer donationAmount s = Inr p \<Longrightarrow> buyer \<noteq> 0"
  by (auto simp: releaseZKTC_accounting_def Let_def split: if_splits sum.splits)

lemma releaseZKTC_settle_Inl:
  "releaseZKTC_settle now buyer tb dn s = Inl (e, d) \<Longrightarrow> buyer \<noteq> 0
     \<Longrightarrow> e = Panic \<or> e = OverflowDetected"
  by (auto simp: releaseZKTC_settle_def Let_def split: if_splits sum.splits
      dest: lockTokensForUser_Inl)

lemma releaseZKTC_Inl:
  assumes "releaseZKTC sender now amount buyer donationAmount s = Some (Inl (e, d))"
    and "e \<noteq> Panic" "e \<noteq> OverflowDetected"
  shows "d = s"
proof (cases "releaseZKTC_accounting sender now amount buyer donationAmount s")
  case (Inl x)
  with assms(1) have "releaseZKTC_accounting sender now amount buyer donationAmount s = Inl (e, d)"
    by (simp add: releaseZKTC_def)
  from releaseZKTC_accounting_Inl[OF this assms(2)] show ?thesis .
next
  case (Inr p)
  obtain tb dn s2 where p: "p = (tb, dn, s2)" by (cases p)
  note b = releaseZKTC_accounting_buyer[OF Inr]
  show ?thesis
  proof (cases "repricing s2")
    case None
    with Inr p assms(1) show ?thesis by (simp add: releaseZKTC_def)
  next
    case (Some r)
    show ?thesis
    proof (cases r)
      case (Inl x)
      with Some Inr p assms(1) have "repricing s2 = Some (Inl (e, d))"
        by (simp add: releaseZKTC_def)
      from repricing_Inl[OF this] assms(2) show ?thesis by simp
    next
      case (Inr s3)
      with Some \<open>releaseZKTC_accounting sender now amount buyer donationAmount s = Inr p\<close> p assms(1)
      have "releaseZKTC_settle now buyer tb dn s3 = Inl (e, d)"
        by (simp add: releaseZKTC_def)
      from releaseZKTC_settle_Inl[OF this b] assms(2,3) show ?thesis by simp
    qed
  qed
qed

lemma withdraw_sevenMonth_Inr:
  "withdraw_sevenMonth user now w s = Inr (w', s') \<Longrightarrow> (w' = w \<and> s' = s) \<or> w < w'"
  by (auto simp: withdraw_sevenMonth_def Let_def split: if_splits)

lemma withdraw_oneYear_Inr:
  "withdraw_oneYear user now w s = Inr (w', s') \<Longrightarrow> (w' = w \<and> s' = s) \<or> w < w'"
  by (auto simp: withdraw_oneYear_def Let_def split: if_splits)

lemma withdraw_sevenMonth_Inl:
  "withdraw_sevenMonth user now w s = Inl (e, d) \<Longrightarrow> e = Panic"
  by (auto simp: withdraw_sevenMonth_def Let_def split: if_splits)

lemma withdraw_oneYear_Inl:
  "withdraw_oneYear user now w s = Inl (e, d) \<Longrightarrow> e = Panic"
  by (auto simp: withdraw_oneYear_def Let_def split: if_splits)

lemma withdraw_Inl:
  assumes "withdraw sender now s = Inl (e, d)" "e \<noteq> Panic" "e \<noteq> InsufficientBalance"
  shows "d = s"
proof (cases "totalAmount (userLockedTokens s sender) = 0")
  case True
  with assms(1) show ?thesis by (simp add: withdraw_def)
next
  case False
  show ?thesis
  proof (cases "withdraw_sevenMonth sender now 0 s")
    case (Inl x)
    with False assms(1) withdraw_sevenMonth_Inl[of sender now 0 s e d] assms(2)
    show ?thesis by (simp add: withdraw_def)
  next
    case (Inr p1)
    obtain w1 s1 where p1: "p1 = (w1, s1)" by (cases p1)
    show ?thesis
    proof (cases "withdraw_oneYear sender now w1 s1")
      case (Inl x)
      with False Inr p1 assms(1) withdraw_oneYear_Inl[of sender now w1 s1 e d] assms(2)
      show ?thesis by (simp add: withdraw_def)
    next
      case (Inr p2)
      obtain w2 s2 where p2: "p2 = (w2, s2)" by (cases p2)
      from \<open>withdraw_sevenMonth sender now 0 s = Inr p1\<close> p1
      have a: "(w1 = 0 \<and> s1 = s) \<or> 0 < w1" using withdraw_sevenMonth_Inr by blast
      from Inr p2 have b: "(w2 = w1 \<and> s2 = s1) \<or> w1 < w2" using withdraw_oneYear_Inr by blast
      from a b have z: "w2 = 0 \<longrightarrow> s2 = s" by auto
      from False \<open>withdraw_sevenMonth sender now 0 s = Inr p1\<close> p1 Inr p2 assms z
      show ?thesis
        by (auto simp: withdraw_def Let_def transferOut_def balanceOf_def
            split: if_splits option.splits)
    qed
  qed
qed

lemma exec_Inl_clean:
  assumes "exec c sender now s = Some (Inl (e, d))"
    and "e \<noteq> Panic" "e \<noteq> OverflowDetected"
    and "\<not> (c = Call_withdraw \<and> e = InsufficientBalance)"
    and "\<forall>u n. c = Call_UpdateAllocations u n \<longrightarrow> e = Unauthorized"
  shows "d = s"
proof (cases c)
  case (Call_releaseZKTC n b dn)
  with assms releaseZKTC_Inl show ?thesis by simp
next
  case Call_withdraw
  with assms withdraw_Inl show ?thesis by simp
next
  case (Call_UpdateAllocations u n)
  with assms have "e = Unauthorized" by simp
  with Call_UpdateAllocations assms(1) show ?thesis
    by (auto simp: UpdateAllocations_def Let_def lockTokensForUser_def split: if_splits)
qed (use assms in \<open>auto simp: setWalletSupplier_def setWalletAddresses_def setTokenPrice_def
      setDCOEndTime_def injectSupply_def addReleaser_def removeReleaser_def
      updatePriceThresholds_def DonateToZCW_def updateZCW_def updateThreshold_def
      updateUsdtGathered_def withdrawParticularZKTC_def withdrawAllZKTC_def setTimePeriods_def
      getAvailableForWithdrawal_def Let_def
      split: if_splits sum.splits option.splits\<close>)

text \<open>
  Claim C6, as amended. A call that reverts leaves the ledger as it was, because the revert
  discards every write of the call. Moreover every named check, in every operation, comes
  before the first write of the call, with these exceptions: the \<open>InsufficientBalance\<close>
  check of \<open>withdraw\<close>, the checks of the lock-merge when reached from
  \<open>UpdateAllocations\<close>, and the overflow checks (\<open>OverflowDetected\<close> and the
  checked arithmetic).
\<close>

theorem reverted_call_leaves_ledger:
  "(transact c sender now s = Some (Reverted e, s') \<longrightarrow> s' = s) \<and>
   (exec c sender now s = Some (Inl (e, d)) \<and> e \<noteq> Panic \<and> e \<noteq> OverflowDetected \<and>
    \<not> (c = Call_withdraw \<and> e = InsufficientBalance) \<and>
    (\<forall>u n. c = Call_UpdateAllocations u n \<longrightarrow> e = Unauthorized) \<longrightarrow> d = s)"
proof -
  have "s' = s" if "transact c sender now s = Some (Reverted e, s')"
    using that by (auto simp: transact_def split: option.splits sum.splits prod.splits)
  with exec_Inl_clean[of c sender now s e d] show ?thesis by blast
qed

theorem reverted_call_leaves_ledger_witness:
  "exec (Call_releaseZKTC (2 * 10 ^ 12) 2 0) 1 1 funded = Some (Inl (InsufficientTokens, funded)) \<and>
   transact (Call_releaseZKTC (2 * 10 ^ 12) 2 0) 1 1 funded
     = Some (Reverted InsufficientTokens, funded)"
proof -
  have "\<exists>d. exec (Call_releaseZKTC (2 * 10 ^ 12) 2 0) 1 1 funded
           = Some (Inl (InsufficientTokens, d))"
    by (simp add: funded_def run_defs)
  then obtain d where
    e: "exec (Call_releaseZKTC (2 * 10 ^ 12) 2 0) 1 1 funded = Some (Inl (InsufficientTokens, d))"
    by blast
  then have "\<exists>s'. transact (Call_releaseZKTC (2 * 10 ^ 12) 2 0) 1 1 funded
           = Some (Reverted InsufficientTokens, s')"
    by (simp add: transact_def)
  then obtain s' where
    t: "transact (Call_releaseZKTC (2 * 10 ^ 12) 2 0) 1 1 funded
           = Some (Reverted InsufficientTokens, s')"
    by blast
  from reverted_call_leaves_ledger
         [of "Call_releaseZKTC (2 * 10 ^ 12) 2 0" 1 1 funded InsufficientTokens s' d] e t
  have "s' = funded" "d = funded" by simp_all
  with e t show ?thesis by simp
qed

text \<open>
  The claim as first stated fails: \<open>withdraw\<close> marks the seven-month tranche as claimed
  and only then compares the total with the held balance. For a user whose re-allocated lock
  exceeds the balance, the storage at the \<open>InsufficientBalance\<close> revert differs from the
  ledger before the call; the revert restores it.
\<close>

theorem withdraw_writes_before_balance_check:
  "reachable reallocated \<and>
   sevenMonthClaimed (userLockedTokens reallocated 2) = 0 \<and>
   exec Call_withdraw 2 20000000 reallocated =
     Some (Inl (InsufficientBalance,
       reallocated\<lparr>userLockedTokens := (userLockedTokens reallocated)
          (2 := (userLockedTokens reallocated 2)\<lparr>sevenMonthClaimed := 500000000000000000\<rparr>)\<rparr>)) \<and>
   transact Call_withdraw 2 20000000 reallocated = Some (Reverted InsufficientBalance, reallocated)"
  using reallocated_reachable by (simp add: reallocated_def run_defs)

subsection \<open>The price over time\<close>

text \<open>
  Claim C7, as amended. No successful call other than \<open>setTokenPrice\<close> lowers
  \<open>tokenPrice\<close>; \<open>setTokenPrice\<close> sets it to the positive value it is given, which may
  be smaller than the current one.
\<close>

theorem tokenPrice_only_lowered_by_setTokenPrice:
  assumes "transact c sender now s = Some (Success, s')"
  shows "(case c of
            Call_setTokenPrice p \<Rightarrow> tokenPrice s' = p \<and> 0 < p
          | _ \<Rightarrow> tokenPrice s \<le> tokenPrice s')"
proof (cases "\<exists>p. c = Call_setTokenPrice p")
  case True
  then obtain p where "c = Call_setTokenPrice p" by blast
  with assms show ?thesis
    by (auto simp: transact_Success setTokenPrice_def emit_def Let_def split: if_splits)
next
  case False
  with assms exec_price[of c sender now s s'] have "tokenPrice s \<le> tokenPrice s'"
    by (simp add: transact_Success)
  with False show ?thesis by (cases c) simp_all
qed

theorem tokenPrice_only_lowered_by_setTokenPrice_witness:
  "transact (Call_releaseZKTC 137500000000 2 0) 1 1 funded
     = Some (Success, ledger_after [(Call_releaseZKTC 137500000000 2 0, 1, 1)] funded) \<and>
   tokenPrice funded \<le> tokenPrice (ledger_after [(Call_releaseZKTC 137500000000 2 0, 1, 1)] funded) \<and>
   tokenPrice funded = 10 ^ 18 \<and>
   tokenPrice (ledger_after [(Call_releaseZKTC 137500000000 2 0, 1, 1)] funded) = 10 ^ 18 + 1000"
proof -
  have t: "transact (Call_releaseZKTC 137500000000 2 0) 1 1 funded
     = Some (Success, ledger_after [(Call_releaseZKTC 137500000000 2 0, 1, 1)] funded)"
    by (simp add: funded_def run_defs repricing_stop repricing_more reprice_step_def
        reprice_checkpoint_def)
  from tokenPrice_only_lowered_by_setTokenPrice[OF t]
  have "tokenPrice funded \<le> tokenPrice (ledger_after [(Call_releaseZKTC 137500000000 2 0, 1, 1)] funded)"
    by simp
  moreover have "tokenPrice funded = 10 ^ 18"
    "tokenPrice (ledger_after [(Call_releaseZKTC 137500000000 2 0, 1, 1)] funded) = 10 ^ 18 + 1000"
    by (simp_all add: funded_def run_defs repricing_stop repricing_more reprice_step_def
        reprice_checkpoint_def)
  ultimately show ?thesis using t by simp
qed

text \<open>
  The claim as first stated fails: a releaser lowers the price from \<open>10 ^ 18\<close> to 1.
\<close>

theorem setTokenPrice_lowers_price:
  "reachable genesis \<and>
   outcomes_of [(Call_setTokenPrice 1, 1, 5)] genesis = [Success] \<and>
   tokenPrice genesis = 10 ^ 18 \<and>
   tokenPrice (ledger_after [(Call_setTokenPrice 1, 1, 5)] genesis) = 1"
  using genesis_reachable by (simp add: run_defs)

subsection \<open>The view of the withdrawable amount\<close>

text \<open>
  Claim C10 states that \<open>getWithdrawableAmount\<close> returns what \<open>withdraw\<close> would transfer
  at the same time. \<open>withdraw\<close> compares the time with the absolute marks \<open>SEVEN_MONTHS\<close>
  and \<open>ONE_YEAR\<close>; the view adds the user's \<open>lockTimestamp\<close> to them. For a lock taken at
  time 1000, at the seven-month mark the view returns 0 and \<open>withdraw\<close> transfers 5.
\<close>

theorem getWithdrawableAmount_disagrees_with_withdraw:
  "outcomes_of [(Call_injectSupply 100, 1, 0), (Call_releaseZKTC 10 2 0, 1, 1000)] genesis
     = [Success, Success] \<and>
   getWithdrawableAmount 2 16156800
     (ledger_after [(Call_injectSupply 100, 1, 0), (Call_releaseZKTC 10 2 0, 1, 1000)] genesis) = Inr 0 \<and>
   outcomes_of [(Call_injectSupply 100, 1, 0), (Call_releaseZKTC 10 2 0, 1, 1000),
                (Call_withdraw, 2, 16156800)] genesis = [Success, Success, Success] \<and>
   balances (ledger_after [(Call_injectSupply 100, 1, 0), (Call_releaseZKTC 10 2 0, 1, 1000),
                (Call_withdraw, 2, 16156800)] genesis) 2 = 5"
  by (simp add: run_defs repricing_stop getWithdrawableAmount_def)

end
